theory Spec2Isabelle
  imports Main
begin

section \<open>Serial grid viewer: a shallow embedding of color\_added.py\<close>

text \<open>
  The program reads values from a serial port on a worker thread (\<open>SerialReader\<close>), hands
  them through a queue to the Tk event loop (\<open>GridApp.process_queue\<close>) and shows them in a
  grid of 20 rows and 10 columns of coloured labels.

  Text is modelled as ASCII: a Python \<open>str\<close> is a \<open>string\<close> (a list of \<open>char\<close>) whose
  characters have codes below 128, and a \<open>bytes\<close> value is a list of \<open>char\<close> as well (one
  \<open>char\<close> per byte). Python integers are \<open>int\<close>.
\<close>

subsection \<open>Configuration\<close>

definition ROWS :: int where
  "ROWS = 20"

definition COLS :: int where
  "COLS = 10"

definition TOTAL_CELLS :: int where
  "TOTAL_CELLS = ROWS * COLS"

definition TEXT_MODE :: bool where
  "TEXT_MODE = False"

definition DEFAULT_PORT :: string where
  "DEFAULT_PORT = ''COM8''"

definition DEFAULT_BAUD :: int where
  "DEFAULT_BAUD = 115200"

subsection \<open>The Python built-ins the program calls\<close>

text \<open>
  \<open>str.strip()\<close> removes the characters for which \<open>str.isspace\<close> holds from both ends; on
  ASCII these are the codes 9 to 13, 28 to 31 and 32.
\<close>

definition is_py_space :: "char \<Rightarrow> bool" where
  "is_py_space c = (let n = (of_char c :: nat) in (9 \<le> n \<and> n \<le> 13) \<or> (28 \<le> n \<and> n \<le> 32))"

definition py_strip :: "string \<Rightarrow> string" where
  "py_strip s = rev (dropWhile is_py_space (rev (dropWhile is_py_space s)))"

text \<open>
  \<open>int(s)\<close> on an ASCII string, base 10, as CPython's \<open>PyLong_FromString\<close> reads it:
  leading blanks (the C locale's white space, codes 9 to 13 and 32: the codes 28 to 31 are
  not skipped here), one optional sign, then decimal digits in which single underscores may
  separate digits, then trailing blanks up to the end of the string. Anything else raises
  \<open>ValueError\<close>, which is the result \<open>None\<close>; so does a literal of more than
  \<open>int_max_str_digits\<close> digits (the default of \<open>sys.get_int_max_str_digits()\<close>).
\<close>

definition int_max_str_digits :: nat where
  "int_max_str_digits = 4300"

definition is_c_space :: "char \<Rightarrow> bool" where
  "is_c_space c = (let n = (of_char c :: nat) in (9 \<le> n \<and> n \<le> 13) \<or> n = 32)"

definition is_digit :: "char \<Rightarrow> bool" where
  "is_digit c = (let n = (of_char c :: nat) in 48 \<le> n \<and> n \<le> 57)"

definition digit_val :: "char \<Rightarrow> int" where
  "digit_val c = int (of_char c) - 48"

fun no_double_underscore :: "string \<Rightarrow> bool" where
  "no_double_underscore (a # b # cs) =
     (\<not> (a = CHR ''_'' \<and> b = CHR ''_'') \<and> no_double_underscore (b # cs))"
| "no_double_underscore cs = True"

definition py_int_unsigned :: "string \<Rightarrow> int option" where
  "py_int_unsigned s =
     (let numpart = takeWhile (\<lambda>c. is_digit c \<or> c = CHR ''_'') s;
          rest = dropWhile (\<lambda>c. is_digit c \<or> c = CHR ''_'') s;
          digits = filter is_digit numpart
      in if numpart = [] \<or> hd numpart = CHR ''_'' \<or> last numpart = CHR ''_''
            \<or> \<not> no_double_underscore numpart
            \<or> \<not> list_all is_c_space rest
            \<or> int_max_str_digits < length digits
         then None
         else Some (foldl (\<lambda>acc d. 10 * acc + digit_val d) 0 digits))"

definition py_int :: "string \<Rightarrow> int option" where
  "py_int s =
     (case dropWhile is_c_space s of
        [] \<Rightarrow> None
      | c # cs \<Rightarrow>
          if c = CHR ''+'' then py_int_unsigned cs
          else if c = CHR ''-'' then map_option uminus (py_int_unsigned cs)
          else py_int_unsigned (c # cs))"

text \<open>\<open>str(n)\<close> for an integer: its decimal digits, with a minus sign when negative.\<close>

function str_nat :: "nat \<Rightarrow> string" where
  "str_nat n =
     (if n < 10 then [char_of (48 + n)] else str_nat (n div 10) @ [char_of (48 + n mod 10)])"
  by pat_completeness auto
termination
  by (relation "measure (\<lambda>n. n)") auto

declare str_nat.simps [simp del]

definition py_str :: "int \<Rightarrow> string" where
  "py_str i = (if i < 0 then CHR ''-'' # str_nat (nat (- i)) else str_nat (nat i))"

text \<open>
  List indexing \<open>xs[i]\<close>: a negative index counts from the end, and an index outside
  \<open>-len(xs) .. len(xs) - 1\<close> raises \<open>IndexError\<close>.
\<close>

datatype py_error = IndexError

definition py_index :: "nat \<Rightarrow> int \<Rightarrow> nat option" where
  "py_index n i =
     (let j = (if i < 0 then int n + i else i)
      in if 0 \<le> j \<and> j < int n then Some (nat j) else None)"

subsection \<open>The grid of labels\<close>

text \<open>
  A \<open>tk.Label\<close> of the grid, with the two options that \<open>set_cell\<close> configures. The grid
  \<open>self.labels\<close> is a list of rows, each a list of labels.
\<close>

record label =
  label_text :: string
  label_bg :: string

type_synonym grid = "label list list"

definition blank_label :: label where
  "blank_label = \<lparr>label_text = [], label_bg = ''white''\<rparr>"

definition blank_grid :: grid where
  "blank_grid = replicate (nat ROWS) (replicate (nat COLS) blank_label)"

definition set_cell :: "int \<Rightarrow> string \<Rightarrow> grid \<Rightarrow> py_error + grid" where
  "set_cell idx text_value labels =
     (let r = idx div COLS;
          c = idx mod COLS;
          val = (case py_int text_value of Some v \<Rightarrow> v | None \<Rightarrow> 0);
          color = (if val < 20 then ''red'' else if val < 60 then ''yellow'' else ''green'')
      in case py_index (length labels) r of
           None \<Rightarrow> Inl IndexError
         | Some i \<Rightarrow>
             (case py_index (length (labels ! i)) c of
                None \<Rightarrow> Inl IndexError
              | Some j \<Rightarrow>
                  Inr (labels[i := (labels ! i)
                         [j := (labels ! i ! j)\<lparr>label_text := text_value, label_bg := color\<rparr>]])))"

text \<open>
  The shape the constructor gives the grid, and the label that shows cell \<open>idx\<close>
  (row \<open>idx // COLS\<close>, column \<open>idx % COLS\<close>).
\<close>

definition grid_ok :: "grid \<Rightarrow> bool" where
  "grid_ok labels = (length labels = nat ROWS \<and> list_all (\<lambda>row. length row = nat COLS) labels)"

definition cell_at :: "grid \<Rightarrow> int \<Rightarrow> label" where
  "cell_at labels idx = labels ! nat (idx div COLS) ! nat (idx mod COLS)"

subsection \<open>The queue and the serial device\<close>

text \<open>
  A message is the pair \<open>(kind, payload)\<close> that the worker puts on the queue; the queue is
  the list of the messages not yet consumed, oldest first. It is unbounded, so a \<open>put\<close>
  always succeeds.

  What the serial library answers is not decided by the program, so each call of the worker
  into the library takes its outcome as an argument: the constructor \<open>serial.Serial(...)\<close>
  returns, raises \<open>serial.SerialException\<close> (with the text of the exception) or raises
  something else; \<open>readline()\<close> and \<open>read(1)\<close> return bytes (none on a timeout) or raise
  in the same two ways.
\<close>

type_synonym msg = "string \<times> string"

datatype open_result = Opened | Open_SerialException string | Open_other_exception

datatype read_result = Returned string | Read_SerialException string | Read_other_exception

subsection \<open>SerialReader\<close>

text \<open>
  The attribute \<open>self.ser\<close> is \<open>None\<close>, an open port or a closed one. \<open>run_point\<close> is the
  place the thread has reached in \<open>run\<close>: not started yet, about to open the port, at the
  test of the \<open>while\<close> loop, at the read inside the loop, after the loop, or returned. The
  thread is alive from \<open>start()\<close> until \<open>run\<close> returns.
\<close>

datatype ser_state = Ser_None | Ser_open | Ser_closed

datatype run_point = Not_started | At_open | At_loop_test | At_read | At_exit | Terminated

record serial_reader =
  port :: string
  baud :: int
  text_mode :: bool
  stop_flag :: bool
  ser :: ser_state
  pc :: run_point

definition SerialReader_init :: "string \<Rightarrow> int \<Rightarrow> bool \<Rightarrow> serial_reader" where
  "SerialReader_init p b tm =
     \<lparr>port = p, baud = b, text_mode = tm, stop_flag = False, ser = Ser_None, pc = Not_started\<rparr>"

definition start :: "serial_reader \<Rightarrow> serial_reader" where
  "start r = r\<lparr>pc := At_open\<rparr>"

definition alive :: "serial_reader \<Rightarrow> bool" where
  "alive r = (pc r \<noteq> Not_started \<and> pc r \<noteq> Terminated)"

text \<open>
  \<open>stop\<close> sets the event and closes the port if there is an open one; it puts no
  message. (An exception of \<open>close()\<close> would be swallowed by the handler, here and at the
  end of \<open>run\<close>; \<open>close()\<close> is taken to succeed.)
\<close>

definition stop :: "serial_reader \<Rightarrow> serial_reader" where
  "stop r = r\<lparr>stop_flag := True, ser := (if ser r = Ser_open then Ser_closed else ser r)\<rparr>"

text \<open>
  \<open>run\<close>, in the four pieces between which another thread can act. Each returns the
  reader and the messages it has put on the queue.
\<close>

definition run_open :: "open_result \<Rightarrow> serial_reader \<Rightarrow> serial_reader \<times> msg list" where
  "run_open res r =
     (case res of
        Opened \<Rightarrow>
          (r\<lparr>ser := Ser_open, pc := At_loop_test\<rparr>,
           [(''__STATUS__'',
             ''Connected: '' @ port r @ '' @ '' @ py_str (baud r) @ '' (''
               @ (if text_mode r then ''text'' else ''raw 8-bit'') @ '')'')])
      | Open_SerialException e \<Rightarrow> (r\<lparr>pc := Terminated\<rparr>, [(''__ERROR__'', ''Open failed: '' @ e)])
      | Open_other_exception \<Rightarrow> (r\<lparr>pc := Terminated\<rparr>, []))"

definition run_loop_test :: "serial_reader \<Rightarrow> serial_reader \<times> msg list" where
  "run_loop_test r = (if \<not> stop_flag r then (r\<lparr>pc := At_read\<rparr>, []) else (r\<lparr>pc := At_exit\<rparr>, []))"

definition decode_ascii_ignore :: "string \<Rightarrow> string" where
  "decode_ascii_ignore bs = filter (\<lambda>b. (of_char b :: nat) < 128) bs"

definition run_read :: "read_result \<Rightarrow> serial_reader \<Rightarrow> serial_reader \<times> msg list" where
  "run_read res r =
     (case res of
        Returned bs \<Rightarrow>
          if text_mode r then
            (if bs = [] then (r\<lparr>pc := At_loop_test\<rparr>, [])
             else let s = py_strip (decode_ascii_ignore bs)
                  in if s = [] then (r\<lparr>pc := At_loop_test\<rparr>, [])
                     else (r\<lparr>pc := At_loop_test\<rparr>, [(''value'', s)]))
          else
            (if bs = [] then (r\<lparr>pc := At_loop_test\<rparr>, [])
             else let val = int (of_char (hd bs))
                  in (r\<lparr>pc := At_loop_test\<rparr>, [(''value'', py_str val)]))
      | Read_SerialException e \<Rightarrow> (r\<lparr>pc := At_exit\<rparr>, [(''__ERROR__'', ''Read error: '' @ e)])
      | Read_other_exception \<Rightarrow> (r\<lparr>pc := At_loop_test\<rparr>, []))"

definition run_exit :: "serial_reader \<Rightarrow> serial_reader \<times> msg list" where
  "run_exit r =
     (r\<lparr>ser := (if ser r = Ser_open then Ser_closed else ser r), pc := Terminated\<rparr>,
      [(''__STATUS__'', ''Disconnected'')])"

text \<open>
  One step of the thread: the piece of \<open>run\<close> that its place allows, \<open>None\<close> when the
  thread is not at that place (in particular, a thread that has not started or has returned
  takes no step). \<open>worker_run\<close> is a sequence of steps of one thread, with the messages it
  has put in order.
\<close>

datatype worker_action = W_open open_result | W_test | W_read read_result | W_exit

fun worker_step :: "worker_action \<Rightarrow> serial_reader \<Rightarrow> (serial_reader \<times> msg list) option" where
  "worker_step (W_open res) r = (if pc r = At_open then Some (run_open res r) else None)"
| "worker_step W_test r = (if pc r = At_loop_test then Some (run_loop_test r) else None)"
| "worker_step (W_read res) r = (if pc r = At_read then Some (run_read res r) else None)"
| "worker_step W_exit r = (if pc r = At_exit then Some (run_exit r) else None)"

fun worker_run :: "worker_action list \<Rightarrow> serial_reader \<Rightarrow> (serial_reader \<times> msg list) option" where
  "worker_run [] r = Some (r, [])"
| "worker_run (a # acts) r =
     (case worker_step a r of
        None \<Rightarrow> None
      | Some (r1, out1) \<Rightarrow>
          (case worker_run acts r1 of
             None \<Rightarrow> None
           | Some (r2, out2) \<Rightarrow> Some (r2, out1 @ out2)))"

subsection \<open>GridApp\<close>

text \<open>
  The fields of the application object. \<open>readers\<close> holds every \<open>SerialReader\<close> object
  created so far, and \<open>self.reader\<close> is \<open>None\<close> or a reference to one of them (its
  position in \<open>readers\<close>): a reader that the application has dropped is still there,
  because its thread may still be running. All readers put on the one queue \<open>self.queue\<close>.
\<close>

record grid_app =
  queue :: "msg list"
  labels :: grid
  index :: int
  reader :: "nat option"
  last_value :: string
  status_var :: string
  port_var :: string
  baud_var :: string
  readers :: "serial_reader list"

text \<open>\<open>refresh_ports\<close>, given the ports the operating system lists.\<close>

definition refresh_ports :: "string list \<Rightarrow> grid_app \<Rightarrow> grid_app" where
  "refresh_ports ports s =
     (let cur = port_var s
      in if cur \<notin> set ports \<and> ports \<noteq> [] then s\<lparr>port_var := hd ports\<rparr> else s)"

text \<open>
  The constructor; the initial text of \<open>last_value\<close> is an em dash, written here as its
  three bytes in UTF-8.
\<close>

definition GridApp_init :: "string list \<Rightarrow> grid_app" where
  "GridApp_init ports =
     refresh_ports ports
       \<lparr>queue = [], labels = blank_grid, index = 0, reader = None,
        last_value = [char_of (226 :: nat), char_of (128 :: nat), char_of (148 :: nat)],
        status_var = ''Idle'', port_var = DEFAULT_PORT, baud_var = py_str DEFAULT_BAUD,
        readers = []\<rparr>"

definition disconnect :: "grid_app \<Rightarrow> grid_app" where
  "disconnect s =
     (case reader s of
        None \<Rightarrow> s
      | Some a \<Rightarrow>
          s\<lparr>readers := (readers s)[a := stop (readers s ! a)],
            reader := None,
            status_var := ''Disconnected''\<rparr>)"

definition connect :: "grid_app \<Rightarrow> grid_app" where
  "connect s =
     (let s1 = disconnect s;
          p = py_strip (port_var s1)
      in case py_int (py_strip (baud_var s1)) of
           None \<Rightarrow> s1\<lparr>status_var := ''Invalid baud rate''\<rparr>
         | Some b \<Rightarrow>
             if p = [] then s1\<lparr>status_var := ''Select/enter a port''\<rparr>
             else s1\<lparr>status_var := ''Connecting to '' @ p @ '' @ '' @ py_str b @ '' ...'',
                     readers := readers s1 @ [start (SerialReader_init p b TEXT_MODE)],
                     reader := Some (length (readers s1))\<rparr>)"

text \<open>
  \<open>process_queue\<close>: the loop takes the messages one by one until \<open>get_nowait\<close> raises
  \<open>queue.Empty\<close>. An exception of \<open>set_cell\<close> is not caught and ends the call. (The
  call then schedules itself again after 20 ms, which is a \<open>Poll\<close> step below.)
\<close>

fun process_queue_loop :: "msg list \<Rightarrow> grid_app \<Rightarrow> py_error + grid_app" where
  "process_queue_loop [] s = Inr s"
| "process_queue_loop ((kind, payload) # rest) s =
     (if kind = ''__ERROR__'' then
        process_queue_loop rest (s\<lparr>queue := rest, status_var := ''Error: '' @ payload\<rparr>)
      else if kind = ''__STATUS__'' then
        process_queue_loop rest (s\<lparr>queue := rest, status_var := payload\<rparr>)
      else if kind = ''value'' then
        (case set_cell (index s) payload (labels s) of
           Inl e \<Rightarrow> Inl e
         | Inr labels' \<Rightarrow>
             process_queue_loop rest
               (s\<lparr>queue := rest, last_value := payload, labels := labels',
                 index := (index s + 1) mod TOTAL_CELLS\<rparr>))
      else process_queue_loop rest (s\<lparr>queue := rest\<rparr>))"

definition process_queue :: "grid_app \<Rightarrow> py_error + grid_app" where
  "process_queue s = process_queue_loop (queue s) s"

subsection \<open>Runs of the whole program\<close>

text \<open>
  The Tk event loop runs one callback at a time: a press of Connect or Disconnect, a
  refresh of the port list, an edit of the port or baud field, or the poll of the queue.
  Between two callbacks, and between two steps of its own, any started worker thread may
  take a step. A run is a list of such actions; \<open>exec\<close> is \<open>None\<close> when an action is not
  possible where it stands (a worker that is not at that place, or a poll that raises).
\<close>

datatype action =
    Connect
  | Disconnect
  | Poll
  | Refresh_ports "string list"
  | Edit_port string
  | Edit_baud string
  | Worker nat worker_action

fun step :: "action \<Rightarrow> grid_app \<Rightarrow> grid_app option" where
  "step Connect s = Some (connect s)"
| "step Disconnect s = Some (disconnect s)"
| "step Poll s = (case process_queue s of Inl e \<Rightarrow> None | Inr s' \<Rightarrow> Some s')"
| "step (Refresh_ports ports) s = Some (refresh_ports ports s)"
| "step (Edit_port p) s = Some (s\<lparr>port_var := p\<rparr>)"
| "step (Edit_baud b) s = Some (s\<lparr>baud_var := b\<rparr>)"
| "step (Worker i a) s =
     (if i < length (readers s) then
        (case worker_step a (readers s ! i) of
           None \<Rightarrow> None
         | Some (r', out) \<Rightarrow> Some (s\<lparr>readers := (readers s)[i := r'], queue := queue s @ out\<rparr>))
      else None)"

fun exec :: "action list \<Rightarrow> grid_app \<Rightarrow> grid_app option" where
  "exec [] s = Some s"
| "exec (a # acts) s = (case step a s of None \<Rightarrow> None | Some s' \<Rightarrow> exec acts s')"

text \<open>The number of \<open>value\<close> messages in a list of messages.\<close>

definition count_values :: "msg list \<Rightarrow> nat" where
  "count_values q = length (filter (\<lambda>m. fst m = ''value'') q)"

text \<open>
  What the constructor establishes for the grid and the write cursor, and every method
  keeps: the grid has its 20 rows of 10 labels and the cursor is a valid cell index.
\<close>

definition app_ok :: "grid_app \<Rightarrow> bool" where
  "app_ok s = (grid_ok (labels s) \<and> 0 \<le> index s \<and> index s < TOTAL_CELLS)"

text \<open>
  What holds of the readers in every state the program reaches: a worker whose stop flag is
  not set is the one \<open>self.reader\<close> refers to, and \<open>self.reader\<close> refers to a reader that
  exists.
\<close>

definition readers_inv :: "grid_app \<Rightarrow> bool" where
  "readers_inv s =
     ((\<forall>i < length (readers s). \<not> stop_flag (readers s ! i) \<longrightarrow> reader s = Some i)
      \<and> (\<forall>a. reader s = Some a \<longrightarrow> a < length (readers s)))"

section \<open>Properties\<close>

subsection \<open>Cells and colours\<close>

lemmas py_int_defs = py_int_def py_int_unsigned_def is_c_space_def is_digit_def digit_val_def
  int_max_str_digits_def
lemmas grid_consts = ROWS_def COLS_def TOTAL_CELLS_def

lemma py_index_row:
  "0 \<le> idx \<Longrightarrow> idx < TOTAL_CELLS \<Longrightarrow> py_index (nat ROWS) (idx div COLS) = Some (nat (idx div COLS))"
  by (auto simp: py_index_def Let_def grid_consts)

lemma py_index_col: "py_index (nat COLS) (idx mod COLS) = Some (nat (idx mod COLS))"
  by (auto simp: py_index_def Let_def COLS_def)

lemma row_in_grid:
  "0 \<le> idx \<Longrightarrow> idx < TOTAL_CELLS \<Longrightarrow> grid_ok g \<Longrightarrow> nat (idx div COLS) < length g"
  by (simp add: grid_ok_def grid_consts)

lemma row_length:
  "0 \<le> idx \<Longrightarrow> idx < TOTAL_CELLS \<Longrightarrow> grid_ok g \<Longrightarrow> length (g ! nat (idx div COLS)) = nat COLS"
  using row_in_grid [of idx g] by (simp add: grid_ok_def list_all_length)

lemma set_cell_result:
  assumes "0 \<le> idx" and "idx < TOTAL_CELLS" and "grid_ok g"
  shows "set_cell idx text_value g =
           Inr (g[nat (idx div COLS) := (g ! nat (idx div COLS))
                  [nat (idx mod COLS) := (cell_at g idx)
                     \<lparr>label_text := text_value,
                      label_bg := (if (case py_int text_value of Some v \<Rightarrow> v | None \<Rightarrow> 0) < 20 then ''red''
                                   else if (case py_int text_value of Some v \<Rightarrow> v | None \<Rightarrow> 0) < 60 then ''yellow''
                                   else ''green'')\<rparr>]])"
proof -
  have "length g = nat ROWS"
    using assms(3) by (simp add: grid_ok_def)
  then show ?thesis
    using py_index_row [OF assms(1,2)] py_index_col [of idx] row_length [OF assms]
    by (simp add: set_cell_def Let_def cell_at_def)
qed

lemma cell_at_update:
  assumes "0 \<le> idx" and "idx < TOTAL_CELLS" and "grid_ok g"
  shows "cell_at (g[nat (idx div COLS) := (g ! nat (idx div COLS))[nat (idx mod COLS) := x]]) idx = x"
proof -
  have "nat (idx mod COLS) < length (g ! nat (idx div COLS))"
    using row_length [OF assms] by (simp add: COLS_def)
  then show ?thesis
    using row_in_grid [OF assms] by (simp add: cell_at_def)
qed

lemma grid_ok_update:
  assumes "grid_ok g" and "i < length g"
  shows "grid_ok (g[i := (g ! i)[j := x]])"
  using assms by (auto simp: grid_ok_def list_all_length nth_list_update)

lemma set_cell_grid_ok:
  assumes "0 \<le> idx" and "idx < TOTAL_CELLS" and "grid_ok g"
  shows "\<exists>g'. set_cell idx text_value g = Inr g' \<and> grid_ok g'"
  using set_cell_result [OF assms] grid_ok_update [OF assms(3) row_in_grid [OF assms]] by simp

lemma grid_ok_blank: "grid_ok blank_grid"
  by (simp add: grid_ok_def blank_grid_def list_all_length)

text \<open>
  Claim C1. For every text that \<open>int\<close> parses to a value \<open>v\<close>, \<open>set_cell\<close> gives the cell
  the background red if \<open>v < 20\<close>, yellow if \<open>20 \<le> v < 60\<close> and green if \<open>v \<ge> 60\<close>. The
  instances that follow are the boundary values 19, 20, 59 and 60: red, yellow, yellow,
  green.
\<close>

theorem set_cell_color_rule:
  assumes "py_int text_value = Some v" and "0 \<le> idx" and "idx < TOTAL_CELLS" and "grid_ok g"
  shows "\<exists>g'. set_cell idx text_value g = Inr g' \<and>
           label_bg (cell_at g' idx) =
             (if v < 20 then ''red'' else if v < 60 then ''yellow'' else ''green'')"
  using set_cell_result [OF assms(2-4), of text_value] cell_at_update [OF assms(2-4)] assms(1)
  by simp

theorem set_cell_color_rule_witness:
  "py_int ''19'' = Some 19 \<and> py_int ''20'' = Some 20 \<and> py_int ''59'' = Some 59 \<and> py_int ''60'' = Some 60
   \<and> (0::int) \<le> 7 \<and> 7 < TOTAL_CELLS \<and> grid_ok blank_grid
   \<and> (\<exists>g. set_cell 7 ''19'' blank_grid = Inr g \<and> label_bg (cell_at g 7) = ''red'')
   \<and> (\<exists>g. set_cell 7 ''20'' blank_grid = Inr g \<and> label_bg (cell_at g 7) = ''yellow'')
   \<and> (\<exists>g. set_cell 7 ''59'' blank_grid = Inr g \<and> label_bg (cell_at g 7) = ''yellow'')
   \<and> (\<exists>g. set_cell 7 ''60'' blank_grid = Inr g \<and> label_bg (cell_at g 7) = ''green'')"
proof -
  have p19: "py_int ''19'' = Some 19" and p20: "py_int ''20'' = Some 20"
    and p59: "py_int ''59'' = Some 59" and p60: "py_int ''60'' = Some 60"
    by (simp_all add: py_int_defs)
  have lo: "(0::int) \<le> 7" and hi: "7 < TOTAL_CELLS"
    by (simp_all add: grid_consts)
  show ?thesis
    using p19 p20 p59 p60 lo hi grid_ok_blank
      set_cell_color_rule [OF p19 lo hi grid_ok_blank]
      set_cell_color_rule [OF p20 lo hi grid_ok_blank]
      set_cell_color_rule [OF p59 lo hi grid_ok_blank]
      set_cell_color_rule [OF p60 lo hi grid_ok_blank]
    by simp
qed

text \<open>
  Claim C3. For every text that \<open>int\<close> does not parse, \<open>set_cell\<close> takes the value 0 for
  the colour, so the background is red, and the cell shows the text as it was received;
  the instance that follows is the text \<open>abc\<close>.
\<close>

theorem set_cell_unparsed_text:
  assumes "py_int text_value = None" and "0 \<le> idx" and "idx < TOTAL_CELLS" and "grid_ok g"
  shows "\<exists>g'. set_cell idx text_value g = Inr g' \<and>
           label_text (cell_at g' idx) = text_value \<and> label_bg (cell_at g' idx) = ''red''"
  using set_cell_result [OF assms(2-4), of text_value] cell_at_update [OF assms(2-4)] assms(1)
  by simp

theorem set_cell_unparsed_text_witness:
  "py_int ''abc'' = None \<and> (0::int) \<le> 0 \<and> 0 < TOTAL_CELLS \<and> grid_ok blank_grid
   \<and> (\<exists>g. set_cell 0 ''abc'' blank_grid = Inr g \<and>
          label_text (cell_at g 0) = ''abc'' \<and> label_bg (cell_at g 0) = ''red'')"
proof -
  have p: "py_int ''abc'' = None"
    by (simp add: py_int_defs)
  have lo: "(0::int) \<le> 0" and hi: "0 < TOTAL_CELLS"
    by (simp_all add: grid_consts)
  show ?thesis
    using p lo hi grid_ok_blank set_cell_unparsed_text [OF p lo hi grid_ok_blank] by simp
qed

subsection \<open>Polling the queue\<close>

lemma pq_loop_queue:
  "process_queue_loop q (s\<lparr>queue := x\<rparr>) =
     (if q = [] then Inr (s\<lparr>queue := x\<rparr>) else process_queue_loop q s)"
proof (cases q)
  case Nil
  then show ?thesis by simp
next
  case (Cons m rest)
  then show ?thesis by (cases m) (simp split: sum.splits)
qed

lemma pq_loop_append:
  "q2 \<noteq> [] \<Longrightarrow>
   process_queue_loop (q1 @ q2) s =
     (case process_queue_loop q1 s of Inl e \<Rightarrow> Inl e | Inr s1 \<Rightarrow> process_queue_loop q2 s1)"
proof (induction q1 arbitrary: s)
  case Nil
  then show ?case by simp
next
  case (Cons m q1)
  obtain kind payload where m: "m = (kind, payload)" by (cases m)
  have irr: "\<And>t. process_queue_loop (q1 @ q2) (t\<lparr>queue := q1 @ q2\<rparr>) =
                 (case process_queue_loop q1 (t\<lparr>queue := q1\<rparr>) of Inl e \<Rightarrow> Inl e
                  | Inr s1 \<Rightarrow> process_queue_loop q2 s1)"
  proof -
    fix t
    show "process_queue_loop (q1 @ q2) (t\<lparr>queue := q1 @ q2\<rparr>) =
                 (case process_queue_loop q1 (t\<lparr>queue := q1\<rparr>) of Inl e \<Rightarrow> Inl e
                  | Inr s1 \<Rightarrow> process_queue_loop q2 s1)"
    proof (cases "q1 = []")
      case True
      then show ?thesis using Cons.prems by (simp add: pq_loop_queue)
    next
      case False
      have "process_queue_loop (q1 @ q2) (t\<lparr>queue := q1 @ q2\<rparr>) = process_queue_loop (q1 @ q2) t"
        using Cons.prems by (simp add: pq_loop_queue)
      also have "\<dots> = (case process_queue_loop q1 t of Inl e \<Rightarrow> Inl e
                  | Inr s1 \<Rightarrow> process_queue_loop q2 s1)"
        using Cons.IH [OF Cons.prems] by simp
      also have "process_queue_loop q1 t = process_queue_loop q1 (t\<lparr>queue := q1\<rparr>)"
        using False by (simp add: pq_loop_queue)
      finally show ?thesis .
    qed
  qed
  have e1: "s\<lparr>queue := q1 @ q2, status_var := v\<rparr> = (s\<lparr>status_var := v\<rparr>)\<lparr>queue := q1 @ q2\<rparr>" for v
    by simp
  have e2: "s\<lparr>queue := q1, status_var := v\<rparr> = (s\<lparr>status_var := v\<rparr>)\<lparr>queue := q1\<rparr>" for v
    by simp
  have e3: "s\<lparr>queue := q1 @ q2, last_value := a, labels := b, index := c\<rparr>
            = (s\<lparr>last_value := a, labels := b, index := c\<rparr>)\<lparr>queue := q1 @ q2\<rparr>" for a b c
    by simp
  have e4: "s\<lparr>queue := q1, last_value := a, labels := b, index := c\<rparr>
            = (s\<lparr>last_value := a, labels := b, index := c\<rparr>)\<lparr>queue := q1\<rparr>" for a b c
    by simp
  show ?case
    unfolding m append_Cons process_queue_loop.simps e1 e2 e3 e4 irr
    by (simp split: sum.splits)
qed

lemma count_values_simps [simp]:
  "count_values [] = 0"
  "count_values ((kind, payload) # q) = (if kind = ''value'' then Suc (count_values q) else count_values q)"
  "count_values (q1 @ q2) = count_values q1 + count_values q2"
  by (simp_all add: count_values_def)

lemma next_index:
  "0 \<le> (i + 1) mod TOTAL_CELLS" "(i + 1) mod TOTAL_CELLS < TOTAL_CELLS"
  by (simp_all add: grid_consts)

lemma mod_step: "((i + 1) mod n + k) mod n = (i + (1 + k)) mod (n::int)"
proof -
  have "((i + 1) mod n + k) mod n = ((i + 1) + k) mod n"
    by (rule mod_add_left_eq)
  then show ?thesis
    by (simp add: ac_simps)
qed

lemma pq_loop_total:
  "app_ok s \<Longrightarrow>
   \<exists>s'. process_queue_loop q s = Inr s' \<and> app_ok s'
      \<and> index s' = (index s + int (count_values q)) mod TOTAL_CELLS
      \<and> reader s' = reader s \<and> readers s' = readers s
      \<and> port_var s' = port_var s \<and> baud_var s' = baud_var s"
proof (induction q arbitrary: s)
  case Nil
  then show ?case by (simp add: app_ok_def grid_consts)
next
  case (Cons m q)
  obtain kind payload where m: "m = (kind, payload)" by (cases m)
  show ?case
  proof (cases "kind = ''value''")
    case True
    obtain g where g: "set_cell (index s) payload (labels s) = Inr g" "grid_ok g"
      using set_cell_grid_ok [of "index s" "labels s" payload] Cons.prems
      by (auto simp: app_ok_def)
    let ?s1 = "s\<lparr>queue := q, last_value := payload, labels := g,
                 index := (index s + 1) mod TOTAL_CELLS\<rparr>"
    have "app_ok ?s1"
      using g(2) next_index [of "index s"] by (simp add: app_ok_def)
    from Cons.IH [OF this] obtain s' where s':
      "process_queue_loop q ?s1 = Inr s'" "app_ok s'"
      "index s' = (index ?s1 + int (count_values q)) mod TOTAL_CELLS"
      "reader s' = reader ?s1" "readers s' = readers ?s1"
      "port_var s' = port_var ?s1" "baud_var s' = baud_var ?s1"
      by blast
    have "index s' = (index s + int (count_values (m # q))) mod TOTAL_CELLS"
      using s'(3) True m mod_step [of "index s" TOTAL_CELLS "int (count_values q)"] by simp
    then show ?thesis
      using s' g(1) True m by simp
  next
    case False
    have ok1: "app_ok (s\<lparr>queue := q, status_var := v\<rparr>)" for v
      using Cons.prems by (simp add: app_ok_def)
    have ok2: "app_ok (s\<lparr>queue := q\<rparr>)"
      using Cons.prems by (simp add: app_ok_def)
    show ?thesis
      using False m Cons.IH [OF ok1] Cons.IH [OF ok2] by simp
  qed
qed

lemma process_queue_fields:
  assumes "process_queue_loop q s = Inr t"
  shows "\<exists>s'. process_queue (s\<lparr>queue := q\<rparr>) = Inr s' \<and> labels s' = labels t \<and> index s' = index t
           \<and> status_var s' = status_var t \<and> last_value s' = last_value t"
  using assms by (cases "q = []") (auto simp: process_queue_def pq_loop_queue)

lemma app_ok_init: "app_ok (GridApp_init ports)"
  by (simp add: app_ok_def GridApp_init_def refresh_ports_def Let_def grid_ok_blank grid_consts)

lemma index_init: "index (GridApp_init ports) = 0"
  by (simp add: GridApp_init_def refresh_ports_def Let_def)

lemma count_values_replicate: "count_values (replicate n (''value'', p)) = n"
  by (induction n) simp_all

text \<open>
  Claim C2, as stated, bounds the write cursor by the half-open interval from 0 to 199,
  which leaves out 199. After 199 value messages on a fresh application the cursor is 199.
\<close>

theorem cursor_reaches_199:
  "map_sum id index (process_queue ((GridApp_init [])\<lparr>queue := replicate 199 (''value'', ''5'')\<rparr>))
     = Inr 199"
proof -
  obtain t where t: "process_queue_loop (replicate 199 (''value'', ''5'')) (GridApp_init []) = Inr t"
    "index t = (index (GridApp_init []) + int (count_values (replicate 199 (''value'', ''5'')))) mod TOTAL_CELLS"
    using pq_loop_total [OF app_ok_init, where q = "replicate 199 (''value'', ''5'')"] by blast
  have "index t = 199"
    using t(2) by (simp add: index_init count_values_replicate grid_consts)
  then show ?thesis
    using process_queue_fields [OF t(1)] by auto
qed

text \<open>
  Claim C2, amended. Whatever the payloads, after the messages \<open>q\<close> are consumed the
  write cursor is its start value plus the number of value messages in \<open>q\<close>, modulo 200,
  and lies between 0 and 199 inclusive; a further value message is written to the cell at
  that cursor and advances it by one modulo 200. Messages of the other kinds do not move
  it. From the cursor 0 of a fresh application the cells are so visited in the order
  0, 1, ..., 199, 0, 1, ...
\<close>

theorem write_cursor_round_robin:
  assumes "grid_ok (labels s)" and "0 \<le> index s" and "index s < TOTAL_CELLS"
  shows "\<exists>s1 s2.
           process_queue (s\<lparr>queue := q\<rparr>) = Inr s1
         \<and> index s1 = (index s + int (count_values q)) mod TOTAL_CELLS
         \<and> 0 \<le> index s1 \<and> index s1 \<le> 199
         \<and> process_queue (s\<lparr>queue := q @ [(''value'', payload)]\<rparr>) = Inr s2
         \<and> set_cell (index s1) payload (labels s1) = Inr (labels s2)
         \<and> label_text (cell_at (labels s2) (index s1)) = payload
         \<and> index s2 = (index s1 + 1) mod TOTAL_CELLS"
proof -
  have ok: "app_ok s"
    using assms by (simp add: app_ok_def)
  obtain t where t: "process_queue_loop q s = Inr t" "app_ok t"
    "index t = (index s + int (count_values q)) mod TOTAL_CELLS"
    using pq_loop_total [OF ok, of q] by blast
  obtain s1 where s1: "process_queue (s\<lparr>queue := q\<rparr>) = Inr s1" "labels s1 = labels t"
    "index s1 = index t"
    using process_queue_fields [OF t(1)] by blast
  have range: "0 \<le> index t" "index t < TOTAL_CELLS" "grid_ok (labels t)"
    using t(2) by (simp_all add: app_ok_def)
  have cell: "set_cell (index t) payload (labels t) =
      Inr ((labels t)[nat (index t div COLS) := (labels t ! nat (index t div COLS))
                  [nat (index t mod COLS) := (cell_at (labels t) (index t))
                     \<lparr>label_text := payload,
                      label_bg := (if (case py_int payload of Some v \<Rightarrow> v | None \<Rightarrow> 0) < 20 then ''red''
                                   else if (case py_int payload of Some v \<Rightarrow> v | None \<Rightarrow> 0) < 60 then ''yellow''
                                   else ''green'')\<rparr>]])" (is "_ = Inr ?g")
    by (rule set_cell_result [OF range])
  have shown: "label_text (cell_at ?g (index t)) = payload"
    by (simp add: cell_at_update [OF range])
  let ?t2 = "t\<lparr>queue := [], last_value := payload, labels := ?g,
               index := (index t + 1) mod TOTAL_CELLS\<rparr>"
  have "process_queue_loop (q @ [(''value'', payload)]) s = Inr ?t2"
    using t(1) cell by (simp add: pq_loop_append)
  from process_queue_fields [OF this] obtain s2 where s2:
    "process_queue (s\<lparr>queue := q @ [(''value'', payload)]\<rparr>) = Inr s2"
    "labels s2 = labels ?t2" "index s2 = index ?t2"
    by blast
  have "index s1 \<le> 199"
    using range(2) s1(3) by (simp add: grid_consts)
  then show ?thesis
    using s1 s2 t(3) range(1) cell shown by simp
qed

theorem write_cursor_round_robin_witness:
  "grid_ok (labels (GridApp_init [])) \<and> 0 \<le> index (GridApp_init [])
   \<and> index (GridApp_init []) < TOTAL_CELLS
   \<and> (\<exists>s1 s2.
           process_queue ((GridApp_init [])\<lparr>queue := [(''value'', ''5'')]\<rparr>) = Inr s1
         \<and> index s1 = 1
         \<and> process_queue ((GridApp_init [])\<lparr>queue := [(''value'', ''5''), (''value'', ''25'')]\<rparr>) = Inr s2
         \<and> set_cell 1 ''25'' (labels s1) = Inr (labels s2)
         \<and> label_text (cell_at (labels s2) 1) = ''25''
         \<and> index s2 = 2)"
proof -
  have h1: "grid_ok (labels (GridApp_init []))" and h2: "0 \<le> index (GridApp_init [])"
    and h3: "index (GridApp_init []) < TOTAL_CELLS"
    using app_ok_init [of "[]"] by (simp_all add: app_ok_def)
  from write_cursor_round_robin [OF h1 h2 h3, of "[(''value'', ''5'')]" "''25''"]
  obtain s1 s2 where
    "process_queue ((GridApp_init [])\<lparr>queue := [(''value'', ''5'')]\<rparr>) = Inr s1"
    "index s1 = 1"
    "process_queue ((GridApp_init [])\<lparr>queue := [(''value'', ''5''), (''value'', ''25'')]\<rparr>) = Inr s2"
    "set_cell (index s1) ''25'' (labels s1) = Inr (labels s2)"
    "label_text (cell_at (labels s2) (index s1)) = ''25''"
    "index s2 = (index s1 + 1) mod TOTAL_CELLS"
    by (auto simp: index_init grid_consts)
  then show ?thesis
    using h1 h2 h3 by (auto simp: grid_consts)
qed

subsection \<open>The defaults, evaluated\<close>

lemma py_str_examples:
  "py_str 5 = ''5''" "py_str 25 = ''25''" "py_str 65 = ''65''" "py_str 115200 = ''115200''"
  by (simp_all add: py_str_def str_nat.simps char_of_eq_iff)

lemma init_fields:
  "queue (GridApp_init []) = []" "reader (GridApp_init []) = None"
  "readers (GridApp_init []) = []" "status_var (GridApp_init []) = ''Idle''"
  "port_var (GridApp_init []) = ''COM8''" "baud_var (GridApp_init []) = ''115200''"
  by (simp_all add: GridApp_init_def refresh_ports_def DEFAULT_PORT_def DEFAULT_BAUD_def
      py_str_examples)

lemma strip_examples:
  "py_strip ''COM8'' = ''COM8''" "py_strip ''115200'' = ''115200''"
  "py_strip ''notanumber'' = ''notanumber''" "py_strip ''  '' = []"
  by (simp_all add: py_strip_def is_py_space_def)

lemma int_examples:
  "py_int ''115200'' = Some 115200" "py_int ''notanumber'' = None"
  by (simp_all add: py_int_defs)

lemma connect_init:
  "connect (GridApp_init []) =
     (GridApp_init [])\<lparr>status_var := ''Connecting to COM8 @ 115200 ...'',
        readers := [\<lparr>port = ''COM8'', baud = 115200, text_mode = False, stop_flag = False,
                     ser = Ser_None, pc = At_open\<rparr>],
        reader := Some 0\<rparr>"
  by (simp add: connect_def disconnect_def init_fields strip_examples int_examples py_str_examples
      start_def SerialReader_init_def TEXT_MODE_def)

lemmas run_defs = run_open_def run_loop_test_def run_read_def run_exit_def stop_def

subsection \<open>Connect and disconnect\<close>

lemma stop_stop: "stop (stop r) = stop r"
  by (simp add: stop_def)

lemma disconnect_None: "reader s = None \<Longrightarrow> disconnect s = s"
  by (simp add: disconnect_def)

lemma reader_disconnect: "reader (disconnect s) = None"
  by (simp add: disconnect_def split: option.splits)

lemma disconnect_disconnect: "disconnect (disconnect s) = disconnect s"
  by (simp add: disconnect_None reader_disconnect)

lemma queue_disconnect: "queue (disconnect s) = queue s"
  by (simp add: disconnect_def split: option.splits)

lemma length_readers_disconnect: "length (readers (disconnect s)) = length (readers s)"
  by (simp add: disconnect_def split: option.splits)

lemma pc_stop: "pc (stop r) = pc r"
  by (simp add: stop_def)

lemma map_pc_disconnect: "map pc (readers (disconnect s)) = map pc (readers s)"
proof (cases "reader s")
  case None
  then show ?thesis by (simp add: disconnect_def)
next
  case (Some a)
  have "(map pc (readers s))[a := pc (readers s ! a)] = map pc (readers s)"
    by (metis list_update_id map_update)
  then show ?thesis
    using Some by (simp add: disconnect_def map_update pc_stop)
qed

text \<open>
  Claim C4, amended. \<open>disconnect\<close> raises nothing (it is a total function: the exception
  handler around \<open>stop\<close> swallows everything), calling it twice is the same as calling it
  once, and afterwards \<open>self.reader\<close> is \<open>None\<close>. When there was a reader the status
  becomes \<open>Disconnected\<close>; when there was none the call changes nothing, so the status
  keeps whatever text it had.
\<close>

theorem disconnect_idempotent:
  "disconnect (disconnect s) = disconnect s
   \<and> reader (disconnect s) = None
   \<and> (reader s = None \<longrightarrow> disconnect s = s)
   \<and> (reader s \<noteq> None \<longrightarrow> status_var (disconnect s) = ''Disconnected'')"
proof -
  have "reader s \<noteq> None \<longrightarrow> status_var (disconnect s) = ''Disconnected''"
    by (auto simp: disconnect_def)
  then show ?thesis
    by (simp add: disconnect_disconnect reader_disconnect disconnect_None)
qed

theorem disconnect_idempotent_witness:
  "reader (GridApp_init []) = None \<and> disconnect (GridApp_init []) = GridApp_init []
   \<and> reader (connect (GridApp_init [])) \<noteq> None
   \<and> status_var (disconnect (connect (GridApp_init []))) = ''Disconnected''
   \<and> disconnect (disconnect (connect (GridApp_init []))) = disconnect (connect (GridApp_init []))"
proof -
  have h1: "reader (GridApp_init []) = None"
    by (simp add: init_fields)
  have h2: "reader (connect (GridApp_init [])) \<noteq> None"
    by (simp add: connect_init)
  note a = disconnect_idempotent [of "GridApp_init []"]
  note b = disconnect_idempotent [of "connect (GridApp_init [])"]
  have "disconnect (GridApp_init []) = GridApp_init []"
    using a h1 by blast
  moreover have "status_var (disconnect (connect (GridApp_init []))) = ''Disconnected''"
    using b h2 by blast
  moreover have "disconnect (disconnect (connect (GridApp_init []))) = disconnect (connect (GridApp_init []))"
    using b by blast
  ultimately show ?thesis
    using h1 h2 by blast
qed

text \<open>
  Claim C4, as stated, has the status show a disconnected state also when no reader exists.
  On a fresh application, which has no reader, \<open>disconnect\<close> leaves the status \<open>Idle\<close>.
  And when the worker's message that the port is open is still on the queue at a first
  Disconnect, the next poll shows it while there is no reader, and a second Disconnect
  leaves the status at \<open>Connected: ...\<close>.
\<close>

theorem disconnect_keeps_status:
  "reader (GridApp_init []) = None
   \<and> status_var (disconnect (GridApp_init [])) = ''Idle''
   \<and> map_option reader
        (exec [Connect, Worker 0 (W_open Opened), Disconnect, Poll] (GridApp_init [])) = Some None
   \<and> map_option status_var
        (exec [Connect, Worker 0 (W_open Opened), Disconnect, Poll, Disconnect] (GridApp_init []))
       = Some ''Connected: COM8 @ 115200 (raw 8-bit)''"
  by (simp add: connect_init run_defs disconnect_def process_queue_def init_fields py_str_examples)

lemma fields_disconnect:
  "baud_var (disconnect s) = baud_var s" "port_var (disconnect s) = port_var s"
  by (simp_all add: disconnect_def split: option.splits)

lemma connect_bad_baud:
  "py_int (py_strip (baud_var s)) = None \<Longrightarrow>
   connect s = (disconnect s)\<lparr>status_var := ''Invalid baud rate''\<rparr>"
  by (simp add: connect_def Let_def fields_disconnect)


text \<open>
  Claim C7. If the text of the baud field does not parse as an integer, \<open>connect\<close> sets the
  status to \<open>Invalid baud rate\<close> and returns: no reader is referenced, no \<open>SerialReader\<close>
  is created (the list of readers keeps its length), no thread changes its place (none is
  started, so no port is opened) and nothing is put on the queue.
\<close>

theorem connect_invalid_baud:
  assumes "py_int (py_strip (baud_var s)) = None"
  shows "status_var (connect s) = ''Invalid baud rate''
       \<and> reader (connect s) = None
       \<and> length (readers (connect s)) = length (readers s)
       \<and> map pc (readers (connect s)) = map pc (readers s)
       \<and> queue (connect s) = queue s"
  by (simp add: connect_bad_baud [OF assms] reader_disconnect length_readers_disconnect
      map_pc_disconnect queue_disconnect)

theorem connect_invalid_baud_witness:
  "py_int (py_strip (baud_var ((GridApp_init [])\<lparr>baud_var := ''notanumber''\<rparr>))) = None
   \<and> status_var (connect ((GridApp_init [])\<lparr>baud_var := ''notanumber''\<rparr>)) = ''Invalid baud rate''
   \<and> reader (connect ((GridApp_init [])\<lparr>baud_var := ''notanumber''\<rparr>)) = None
   \<and> readers (connect ((GridApp_init [])\<lparr>baud_var := ''notanumber''\<rparr>)) = []
   \<and> queue (connect ((GridApp_init [])\<lparr>baud_var := ''notanumber''\<rparr>)) = []"
proof -
  have h: "py_int (py_strip (baud_var ((GridApp_init [])\<lparr>baud_var := ''notanumber''\<rparr>))) = None"
    by (simp add: strip_examples int_examples)
  show ?thesis
    using h connect_invalid_baud [OF h] by (simp add: init_fields)
qed

lemma connect_cases:
  "connect s = (disconnect s)\<lparr>status_var := ''Invalid baud rate''\<rparr>
   \<or> connect s = (disconnect s)\<lparr>status_var := ''Select/enter a port''\<rparr>
   \<or> (\<exists>v p b. connect s =
          (disconnect s)\<lparr>status_var := v,
             readers := readers (disconnect s) @ [start (SerialReader_init p b TEXT_MODE)],
             reader := Some (length (readers (disconnect s)))\<rparr>)"
proof (cases "py_int (py_strip (baud_var (disconnect s)))")
  case None
  then show ?thesis by (simp add: connect_def Let_def)
next
  case (Some b)
  show ?thesis
  proof (cases "py_strip (port_var (disconnect s)) = []")
    case True
    then show ?thesis using Some by (simp add: connect_def Let_def)
  next
    case False
    have "connect s =
          (disconnect s)\<lparr>status_var := ''Connecting to '' @ py_strip (port_var (disconnect s))
                 @ '' @ '' @ py_str b @ '' ...'',
             readers := readers (disconnect s)
                 @ [start (SerialReader_init (py_strip (port_var (disconnect s))) b TEXT_MODE)],
             reader := Some (length (readers (disconnect s)))\<rparr>"
      using Some False by (simp add: connect_def Let_def)
    then show ?thesis by blast
  qed
qed

lemma ser_stop: "ser (stop r) \<noteq> Ser_open"
  by (simp add: stop_def)

lemma ser_stop_open: "ser r = Ser_open \<Longrightarrow> ser (stop r) = Ser_closed"
  by (simp add: stop_def)


lemma disconnect_stops_reader:
  "reader s = Some a \<Longrightarrow> a < length (readers s) \<Longrightarrow>
   readers (disconnect s) ! a = stop (readers s ! a)"
  by (simp add: disconnect_def)

lemma connect_keeps_old:
  assumes "i < length (readers s)"
  shows "readers (connect s) ! i = readers (disconnect s) ! i"
proof -
  have i: "i < length (readers (disconnect s))"
    using assms by (simp add: length_readers_disconnect)
  from connect_cases [of s] show ?thesis
  proof (elim disjE exE)
    assume "connect s = (disconnect s)\<lparr>status_var := ''Invalid baud rate''\<rparr>"
    then show ?thesis by simp
  next
    assume "connect s = (disconnect s)\<lparr>status_var := ''Select/enter a port''\<rparr>"
    then show ?thesis by simp
  next
    fix v p b
    assume "connect s =
          (disconnect s)\<lparr>status_var := v,
             readers := readers (disconnect s) @ [start (SerialReader_init p b TEXT_MODE)],
             reader := Some (length (readers (disconnect s)))\<rparr>"
    then show ?thesis using i by (simp add: nth_append)
  qed
qed

lemma connect_stops_reader:
  assumes "reader s = Some a" and "a < length (readers s)"
  shows "readers (connect s) ! a = stop (readers s ! a)"
  using connect_keeps_old [OF assms(2)] disconnect_stops_reader [OF assms] by simp

lemma pc_disconnect_nth:
  assumes "i < length (readers s)"
  shows "pc (readers (disconnect s) ! i) = pc (readers s ! i)"
proof -
  have "map pc (readers (disconnect s)) ! i = map pc (readers s) ! i"
    by (simp only: map_pc_disconnect)
  then show ?thesis
    using assms by (simp add: length_readers_disconnect)
qed

lemma connect_new_reader:
  assumes "reader (connect s) = Some n"
  shows "n = length (readers s) \<and> n < length (readers (connect s))
       \<and> pc (readers (connect s) ! n) = At_open
       \<and> \<not> stop_flag (readers (connect s) ! n)
       \<and> ser (readers (connect s) ! n) = Ser_None"
proof -
  from connect_cases [of s] show ?thesis
  proof (elim disjE exE)
    assume "connect s = (disconnect s)\<lparr>status_var := ''Invalid baud rate''\<rparr>"
    then have "reader (connect s) = None" by (simp add: reader_disconnect)
    then show ?thesis using assms by simp
  next
    assume "connect s = (disconnect s)\<lparr>status_var := ''Select/enter a port''\<rparr>"
    then have "reader (connect s) = None" by (simp add: reader_disconnect)
    then show ?thesis using assms by simp
  next
    fix v p b
    assume c: "connect s =
          (disconnect s)\<lparr>status_var := v,
             readers := readers (disconnect s) @ [start (SerialReader_init p b TEXT_MODE)],
             reader := Some (length (readers (disconnect s)))\<rparr>"
    then have n: "n = length (readers (disconnect s))"
      using assms by simp
    have "readers (connect s) ! n = start (SerialReader_init p b TEXT_MODE)"
      unfolding c n by simp
    moreover have "n < length (readers (connect s))"
      unfolding c n by simp
    ultimately show ?thesis
      using n by (simp add: length_readers_disconnect start_def SerialReader_init_def)
  qed
qed

subsection \<open>The worker thread\<close>

lemma terminated_no_step: "pc r = Terminated \<Longrightarrow> worker_step a r = None"
  by (cases a) simp_all

lemma not_started_no_step: "pc r = Not_started \<Longrightarrow> worker_step a r = None"
  by (cases a) simp_all

lemma terminated_no_run:
  "pc r = Terminated \<Longrightarrow> worker_run acts r = Some (r', out) \<Longrightarrow> acts = [] \<and> r' = r \<and> out = []"
  by (cases acts) (auto simp: terminated_no_step)

lemma worker_step_stop_flag:
  "worker_step a r = Some (r', out) \<Longrightarrow> stop_flag r' = stop_flag r"
  by (cases a) (auto simp: run_defs Let_def split: if_splits open_result.splits read_result.splits)

text \<open>
  The failure of the open that \<open>run\<close> handles: if \<open>serial.Serial(...)\<close> raises
  \<open>SerialException\<close>, the worker puts the one message \<open>("__ERROR__", "Open failed: ...")\<close>
  and returns without reaching the loop; every run of the thread that starts with the
  failed open ends there.
\<close>
lemma open_failure_terminates:
  assumes "pc r = At_open"
  shows "worker_step (W_open (Open_SerialException e)) r =
           Some (r\<lparr>pc := Terminated\<rparr>, [(''__ERROR__'', ''Open failed: '' @ e)])
       \<and> (\<forall>acts r' out.
             worker_run (W_open (Open_SerialException e) # acts) r = Some (r', out) \<longrightarrow>
               acts = [] \<and> out = [(''__ERROR__'', ''Open failed: '' @ e)]
               \<and> pc r' = Terminated \<and> ser r' = ser r)"
proof -
  have st: "worker_step (W_open (Open_SerialException e)) r =
           Some (r\<lparr>pc := Terminated\<rparr>, [(''__ERROR__'', ''Open failed: '' @ e)])"
    using assms by (simp add: run_open_def)
  have "acts = [] \<and> out = [(''__ERROR__'', ''Open failed: '' @ e)]
               \<and> pc r' = Terminated \<and> ser r' = ser r"
    if run: "worker_run (W_open (Open_SerialException e) # acts) r = Some (r', out)"
    for acts r' out
  proof -
    obtain r2 out2 where r2: "worker_run acts (r\<lparr>pc := Terminated\<rparr>) = Some (r2, out2)"
      "r' = r2" "out = [(''__ERROR__'', ''Open failed: '' @ e)] @ out2"
      using run st by (auto split: option.splits)
    have "acts = [] \<and> r2 = r\<lparr>pc := Terminated\<rparr> \<and> out2 = []"
      using terminated_no_run [OF _ r2(1)] by simp
    then show ?thesis
      using r2 by simp
  qed
  then show ?thesis
    using st by blast
qed

lemma minus5:
  "py_strip ''-5'' = ''-5''" "py_int ''-5'' = Some (- 5)" "py_str (- 5) = ''-5''"
  by (simp_all add: py_strip_def is_py_space_def py_int_defs py_str_def str_nat.simps
      char_of_eq_iff)

text \<open>
  Claim C8. If opening the serial connection fails, the worker is to put an error message
  and return without entering its loop. \<open>run\<close> catches \<open>serial.SerialException\<close> only.
  With the baud text \<open>-5\<close>, which \<open>connect\<close> accepts as an integer, the constructor
  \<open>serial.Serial\<close> raises \<open>ValueError\<close>: the thread returns without entering the loop,
  but it puts no message, so the queue stays empty and the status stays at
  \<open>Connecting to COM8 @ -5 ...\<close>.
\<close>

theorem open_failure_unreported:
  "map_option queue
     (exec [Edit_baud ''-5'', Connect, Worker 0 (W_open Open_other_exception)]
        (GridApp_init [])) = Some []
   \<and> map_option status_var
     (exec [Edit_baud ''-5'', Connect, Worker 0 (W_open Open_other_exception)]
        (GridApp_init [])) = Some ''Connecting to COM8 @ -5 ...''
   \<and> map_option (map pc) (map_option readers
     (exec [Edit_baud ''-5'', Connect, Worker 0 (W_open Open_other_exception)]
        (GridApp_init []))) = Some [Terminated]"
proof -
  have c: "connect ((GridApp_init [])\<lparr>baud_var := ''-5''\<rparr>) =
     (GridApp_init [])\<lparr>status_var := ''Connecting to COM8 @ -5 ...'',
        baud_var := ''-5'',
        readers := [\<lparr>port = ''COM8'', baud = - 5, text_mode = False, stop_flag = False,
                     ser = Ser_None, pc = At_open\<rparr>],
        reader := Some 0\<rparr>"
    by (simp add: connect_def disconnect_def init_fields strip_examples minus5
        start_def SerialReader_init_def TEXT_MODE_def)
  show ?thesis
    by (simp add: c run_defs init_fields)
qed
lemma flagged_open_run:
  assumes "stop_flag r" and "pc r = At_open"
  shows "worker_run [W_open Opened, W_test, W_exit] r =
     Some (r\<lparr>ser := Ser_closed, pc := Terminated\<rparr>,
           [(''__STATUS__'',
             ''Connected: '' @ port r @ '' @ '' @ py_str (baud r) @ '' (''
               @ (if text_mode r then ''text'' else ''raw 8-bit'') @ '')''),
            (''__STATUS__'', ''Disconnected'')])"
  using assms by (simp add: run_open_def run_loop_test_def run_exit_def)

lemma flagged_test_run:
  assumes "stop_flag r" and "pc r = At_loop_test"
  shows "worker_run [W_test, W_exit] r =
     Some (r\<lparr>ser := (if ser r = Ser_open then Ser_closed else ser r), pc := Terminated\<rparr>,
           [(''__STATUS__'', ''Disconnected'')])"
  using assms by (simp add: run_loop_test_def run_exit_def)

lemma flagged_read_run:
  assumes "stop_flag r" and "pc r = At_read"
  shows "\<exists>r' out. worker_run (W_read res # (case res of Read_SerialException e \<Rightarrow> [W_exit]
                                          | _ \<Rightarrow> [W_test, W_exit])) r = Some (r', out)
      \<and> pc r' = Terminated \<and> ser r' \<noteq> Ser_open
      \<and> last out = (''__STATUS__'', ''Disconnected'')"
  using assms
  by (cases res) (simp_all add: run_read_def run_loop_test_def run_exit_def Let_def)

lemma flag_stays:
  "stop_flag r \<Longrightarrow> worker_step a r = Some (r1, out) \<Longrightarrow> stop_flag r1"
  using worker_step_stop_flag [of a r r1 out] by simp

lemma py_str_9600: "py_str 9600 = ''9600''"
  by (simp add: py_str_def str_nat.simps char_of_eq_iff)
text \<open>
  Claim C6, amended. \<open>stop\<close> is idempotent and safe at any place of the thread, also
  before \<open>start\<close>: it sets the stop flag, leaves no port open and does not move the
  thread; no step of \<open>run\<close> clears the flag. It puts no message itself (so
  \<open>disconnect\<close>, its caller, leaves the queue as it is). The message
  \<open>("__STATUS__", "Disconnected")\<close> comes from \<open>run\<close>, as its last message, once the
  loop test sees the flag, whatever the state of the port then: for a thread stopped before
  it opened the port, after the open and the message that the port is open; for a thread at
  the loop test, at once; for a thread inside a read, after the read, whatever the read
  gives. On that way out a port that is open is closed. A reader that is not running (not
  started, or returned) takes no step, so nothing is put for it.
\<close>
theorem stop_idempotent_and_silent:
  "stop (stop r) = stop r
   \<and> stop_flag (stop r) \<and> ser (stop r) \<noteq> Ser_open \<and> pc (stop r) = pc r
   \<and> queue (disconnect s) = queue s
   \<and> (\<forall>a r1 out. stop_flag r' \<longrightarrow> worker_step a r' = Some (r1, out) \<longrightarrow> stop_flag r1)
   \<and> (stop_flag r' \<and> pc r' = At_open \<longrightarrow>
        worker_run [W_open Opened, W_test, W_exit] r' =
          Some (r'\<lparr>ser := Ser_closed, pc := Terminated\<rparr>,
                [(''__STATUS__'',
                  ''Connected: '' @ port r' @ '' @ '' @ py_str (baud r') @ '' (''
                    @ (if text_mode r' then ''text'' else ''raw 8-bit'') @ '')''),
                 (''__STATUS__'', ''Disconnected'')]))
   \<and> (stop_flag r' \<and> pc r' = At_loop_test \<longrightarrow>
        worker_run [W_test, W_exit] r' =
          Some (r'\<lparr>ser := (if ser r' = Ser_open then Ser_closed else ser r'),
                   pc := Terminated\<rparr>,
                [(''__STATUS__'', ''Disconnected'')]))
   \<and> (stop_flag r' \<and> pc r' = At_read \<longrightarrow>
        (\<exists>r'' out. worker_run (W_read res # (case res of Read_SerialException e \<Rightarrow> [W_exit]
                                                | _ \<Rightarrow> [W_test, W_exit])) r' = Some (r'', out)
           \<and> pc r'' = Terminated \<and> ser r'' \<noteq> Ser_open
           \<and> last out = (''__STATUS__'', ''Disconnected'')))
   \<and> (pc r = Not_started \<or> pc r = Terminated \<longrightarrow> (\<forall>a. worker_step a (stop r) = None))"
proof -
  have a: "stop_flag (stop r)" "ser (stop r) \<noteq> Ser_open"
    by (simp_all add: stop_def)
  have b: "pc r = Not_started \<or> pc r = Terminated \<longrightarrow> (\<forall>a. worker_step a (stop r) = None)"
    using terminated_no_step [of "stop r"] not_started_no_step [of "stop r"]
    by (auto simp: pc_stop)
  have c: "\<forall>a r1 out. stop_flag r' \<longrightarrow> worker_step a r' = Some (r1, out) \<longrightarrow> stop_flag r1"
    using flag_stays [of r'] by blast
  show ?thesis
    using a b c stop_stop [of r] pc_stop [of r] queue_disconnect [of s]
      flagged_open_run [of r'] flagged_test_run [of r'] flagged_read_run [of r' res]
    by blast
qed
theorem stop_idempotent_and_silent_witness:
  "stop_flag (stop (start (SerialReader_init ''COM8'' 9600 False)))
   \<and> pc (stop (start (SerialReader_init ''COM8'' 9600 False))) = At_open
   \<and> worker_run [W_open Opened, W_test, W_exit]
        (stop (start (SerialReader_init ''COM8'' 9600 False)))
       = Some (\<lparr>port = ''COM8'', baud = 9600, text_mode = False, stop_flag = True,
                 ser = Ser_closed, pc = Terminated\<rparr>,
               [(''__STATUS__'', ''Connected: COM8 @ 9600 (raw 8-bit)''),
                (''__STATUS__'', ''Disconnected'')])
   \<and> worker_run [W_test, W_exit]
        \<lparr>port = ''COM8'', baud = 9600, text_mode = False, stop_flag = True,
          ser = Ser_open, pc = At_loop_test\<rparr>
       = Some (\<lparr>port = ''COM8'', baud = 9600, text_mode = False, stop_flag = True,
                 ser = Ser_closed, pc = Terminated\<rparr>, [(''__STATUS__'', ''Disconnected'')])
   \<and> (\<exists>r'' out. worker_run [W_read (Returned []), W_test, W_exit]
          \<lparr>port = ''COM8'', baud = 9600, text_mode = False, stop_flag = True,
            ser = Ser_closed, pc = At_read\<rparr> = Some (r'', out)
         \<and> pc r'' = Terminated \<and> ser r'' \<noteq> Ser_open
         \<and> last out = (''__STATUS__'', ''Disconnected''))
   \<and> stop_flag (fst (run_loop_test
        \<lparr>port = ''COM8'', baud = 9600, text_mode = False, stop_flag = True,
          ser = Ser_open, pc = At_loop_test\<rparr>))
   \<and> (pc (SerialReader_init ''COM8'' 9600 False) = Not_started
        \<or> pc (SerialReader_init ''COM8'' 9600 False) = Terminated)
   \<and> worker_step (W_open Opened) (stop (SerialReader_init ''COM8'' 9600 False)) = None"
proof -
  let ?r0 = "stop (start (SerialReader_init ''COM8'' 9600 False))"
  let ?r1 = "\<lparr>port = ''COM8'', baud = 9600, text_mode = False, stop_flag = True,
          ser = Ser_open, pc = At_loop_test\<rparr>"
  let ?r2 = "\<lparr>port = ''COM8'', baud = 9600, text_mode = False, stop_flag = True,
            ser = Ser_closed, pc = At_read\<rparr>"
  let ?r3 = "SerialReader_init ''COM8'' 9600 False"
  have r0: "?r0 = \<lparr>port = ''COM8'', baud = 9600, text_mode = False, stop_flag = True,
          ser = Ser_None, pc = At_open\<rparr>"
    by (simp add: stop_def start_def SerialReader_init_def)
  have h0: "stop_flag ?r0 \<and> pc ?r0 = At_open"
    by (simp add: r0)
  have h1: "stop_flag ?r1 \<and> pc ?r1 = At_loop_test"
    by simp
  have h2: "stop_flag ?r2 \<and> pc ?r2 = At_read"
    by simp
  have h3: "pc ?r3 = Not_started \<or> pc ?r3 = Terminated"
    by (simp add: SerialReader_init_def)
  have "worker_run [W_open Opened, W_test, W_exit] ?r0 =
          Some (?r0\<lparr>ser := Ser_closed, pc := Terminated\<rparr>,
                [(''__STATUS__'',
                  ''Connected: '' @ port ?r0 @ '' @ '' @ py_str (baud ?r0) @ '' (''
                    @ (if text_mode ?r0 then ''text'' else ''raw 8-bit'') @ '')''),
                 (''__STATUS__'', ''Disconnected'')])"
    using stop_idempotent_and_silent [of ?r3 "GridApp_init []" ?r0 "Returned []"] h0
    by blast
  then have c0: "worker_run [W_open Opened, W_test, W_exit] ?r0
       = Some (\<lparr>port = ''COM8'', baud = 9600, text_mode = False, stop_flag = True,
                 ser = Ser_closed, pc = Terminated\<rparr>,
               [(''__STATUS__'', ''Connected: COM8 @ 9600 (raw 8-bit)''),
                (''__STATUS__'', ''Disconnected'')])"
    by (simp add: r0 py_str_9600)
  have "worker_run [W_test, W_exit] ?r1 =
          Some (?r1\<lparr>ser := (if ser ?r1 = Ser_open then Ser_closed else ser ?r1),
                   pc := Terminated\<rparr>,
                [(''__STATUS__'', ''Disconnected'')])"
    using stop_idempotent_and_silent [of ?r3 "GridApp_init []" ?r1 "Returned []"] h1
    by blast
  then have c1: "worker_run [W_test, W_exit] ?r1
       = Some (\<lparr>port = ''COM8'', baud = 9600, text_mode = False, stop_flag = True,
                 ser = Ser_closed, pc = Terminated\<rparr>, [(''__STATUS__'', ''Disconnected'')])"
    by simp
  have "\<exists>r'' out. worker_run (W_read (Returned []) #
            (case Returned [] of Read_SerialException e \<Rightarrow> [W_exit] | _ \<Rightarrow> [W_test, W_exit]))
          ?r2 = Some (r'', out)
         \<and> pc r'' = Terminated \<and> ser r'' \<noteq> Ser_open
         \<and> last out = (''__STATUS__'', ''Disconnected'')"
    using stop_idempotent_and_silent [of ?r3 "GridApp_init []" ?r2 "Returned []"] h2
    by blast
  then have c2: "\<exists>r'' out. worker_run [W_read (Returned []), W_test, W_exit] ?r2 = Some (r'', out)
         \<and> pc r'' = Terminated \<and> ser r'' \<noteq> Ser_open
         \<and> last out = (''__STATUS__'', ''Disconnected'')"
    by simp
  have st: "worker_step W_test ?r1 = Some (fst (run_loop_test ?r1), snd (run_loop_test ?r1))"
    by simp
  have c3: "stop_flag (fst (run_loop_test ?r1))"
    using stop_idempotent_and_silent [of ?r3 "GridApp_init []" ?r1 "Returned []"] h1 st
    by blast
  have c4: "worker_step (W_open Opened) (stop ?r3) = None"
    using stop_idempotent_and_silent [of ?r3 "GridApp_init []" ?r1 "Returned []"] h3
    by blast
  show ?thesis
    using h0 c0 c1 c2 c3 h3 c4 by blast
qed
text \<open>
  Claim C6, as stated, has \<open>stop\<close> always lead to a message announcing disconnection,
  at once when the reader is not running. Here the open fails, the thread returns, and
  Disconnect then calls \<open>stop\<close> on the reader that is not running: the queue holds the
  error message only, and the thread, having returned, will put nothing more.
\<close>

theorem stop_after_failed_open_is_silent:
  "map_option queue
     (exec [Connect, Worker 0 (W_open (Open_SerialException ''no port'')), Disconnect]
        (GridApp_init []))
     = Some [(''__ERROR__'', ''Open failed: no port'')]
   \<and> map_option (map pc) (map_option readers
     (exec [Connect, Worker 0 (W_open (Open_SerialException ''no port'')), Disconnect]
        (GridApp_init []))) = Some [Terminated]
   \<and> map_option (map stop_flag) (map_option readers
     (exec [Connect, Worker 0 (W_open (Open_SerialException ''no port'')), Disconnect]
        (GridApp_init []))) = Some [True]"
  by (simp add: connect_init run_defs disconnect_def init_fields)

subsection \<open>A read error\<close>

lemma pq_error_then_status:
  assumes "app_ok s"
  shows "\<exists>s0 s1 s2.
           process_queue (s\<lparr>queue := q\<rparr>) = Inr s0
         \<and> process_queue (s\<lparr>queue := q @ [(''__ERROR__'', x)]\<rparr>) = Inr s1
         \<and> labels s1 = labels s0 \<and> index s1 = index s0 \<and> status_var s1 = ''Error: '' @ x
         \<and> process_queue (s\<lparr>queue := q @ [(''__ERROR__'', x), (''__STATUS__'', y)]\<rparr>) = Inr s2
         \<and> labels s2 = labels s0 \<and> index s2 = index s0 \<and> status_var s2 = y"
proof -
  obtain t where t: "process_queue_loop q s = Inr t"
    using pq_loop_total [OF assms, of q] by blast
  have l1: "process_queue_loop (q @ [(''__ERROR__'', x)]) s
              = Inr (t\<lparr>queue := [], status_var := ''Error: '' @ x\<rparr>)"
    using t by (simp add: pq_loop_append)
  have l2: "process_queue_loop (q @ [(''__ERROR__'', x), (''__STATUS__'', y)]) s
              = Inr (t\<lparr>queue := [], status_var := y\<rparr>)"
    using t by (simp add: pq_loop_append)
  from process_queue_fields [OF t] obtain s0 where s0:
    "process_queue (s\<lparr>queue := q\<rparr>) = Inr s0" "labels s0 = labels t" "index s0 = index t"
    by blast
  from process_queue_fields [OF l1] obtain s1 where s1:
    "process_queue (s\<lparr>queue := q @ [(''__ERROR__'', x)]\<rparr>) = Inr s1"
    "labels s1 = labels t" "index s1 = index t" "status_var s1 = ''Error: '' @ x"
    by auto
  from process_queue_fields [OF l2] obtain s2 where s2:
    "process_queue (s\<lparr>queue := q @ [(''__ERROR__'', x), (''__STATUS__'', y)]\<rparr>) = Inr s2"
    "labels s2 = labels t" "index s2 = index t" "status_var s2 = y"
    by auto
  show ?thesis
    using s0 s1 s2 by simp
qed

lemma run_after_read_error:
  assumes "pc r = At_read"
    and "worker_run (W_read (Read_SerialException e) # acts) r = Some (r', out)"
  shows "(acts = [] \<or> acts = [W_exit]) \<and> count_values out = 0"
proof -
  let ?r1 = "r\<lparr>pc := At_exit\<rparr>"
  obtain r2 out2 where r2: "worker_run acts ?r1 = Some (r2, out2)"
    "out = [(''__ERROR__'', ''Read error: '' @ e)] @ out2"
    using assms by (auto simp: run_read_def split: option.splits)
  show ?thesis
  proof (cases acts)
    case Nil
    then show ?thesis using r2 by simp
  next
    case (Cons a acts')
    then obtain r3 out3 where st: "worker_step a ?r1 = Some (r3, out3)"
      using r2(1) by (auto split: option.splits)
    then have a: "a = W_exit"
      by (cases a) simp_all
    then have r3: "pc r3 = Terminated" "out3 = [(''__STATUS__'', ''Disconnected'')]"
      using st by (auto simp: run_exit_def)
    obtain r4 out4 where r4: "worker_run acts' r3 = Some (r4, out4)" "out2 = out3 @ out4"
      using r2(1) Cons st by (auto split: option.splits)
    have "acts' = [] \<and> out4 = []"
      using terminated_no_run [OF r3(1) r4(1)] by simp
    then show ?thesis
      using Cons a r2(2) r3(2) r4(2) by simp
  qed
qed

text \<open>
  The worker after a read error, and the poll of what it has put. When a read raises
  \<open>SerialException\<close>, the worker puts the error message, leaves the loop, closes the port
  if it is open and then puts \<open>("__STATUS__", "Disconnected")\<close>; it can take no other
  step, so this worker puts no further value. When the queue is polled, the messages \<open>q\<close>
  put before the error are reflected in the grid first; consuming the error message sets
  the status to \<open>Error: Read error: ...\<close> and changes neither grid nor cursor; consuming the
  status message that follows replaces that text by \<open>Disconnected\<close>.
\<close>
lemma read_error_then_disconnected:
  assumes "pc r = At_read" and "grid_ok (labels s)" and "0 \<le> index s" and "index s < TOTAL_CELLS"
  shows "worker_run [W_read (Read_SerialException e), W_exit] r =
           Some (r\<lparr>ser := (if ser r = Ser_open then Ser_closed else ser r), pc := Terminated\<rparr>,
                 [(''__ERROR__'', ''Read error: '' @ e), (''__STATUS__'', ''Disconnected'')])
       \<and> (\<forall>acts r' out.
             worker_run (W_read (Read_SerialException e) # acts) r = Some (r', out) \<longrightarrow>
               (acts = [] \<or> acts = [W_exit]) \<and> count_values out = 0)
       \<and> (\<exists>s0 s1 s2.
             process_queue (s\<lparr>queue := q\<rparr>) = Inr s0
           \<and> process_queue (s\<lparr>queue := q @ [(''__ERROR__'', ''Read error: '' @ e)]\<rparr>) = Inr s1
           \<and> labels s1 = labels s0 \<and> index s1 = index s0
           \<and> status_var s1 = ''Error: Read error: '' @ e
           \<and> process_queue (s\<lparr>queue := q @ [(''__ERROR__'', ''Read error: '' @ e),
                                               (''__STATUS__'', ''Disconnected'')]\<rparr>) = Inr s2
           \<and> labels s2 = labels s0 \<and> index s2 = index s0
           \<and> status_var s2 = ''Disconnected'')"
proof -
  have ok: "app_ok s"
    using assms(2-4) by (simp add: app_ok_def)
  have run: "worker_run [W_read (Read_SerialException e), W_exit] r =
           Some (r\<lparr>ser := (if ser r = Ser_open then Ser_closed else ser r), pc := Terminated\<rparr>,
                 [(''__ERROR__'', ''Read error: '' @ e), (''__STATUS__'', ''Disconnected'')])"
    using assms(1) by (simp add: run_read_def run_exit_def)
  have after: "\<forall>acts r' out.
             worker_run (W_read (Read_SerialException e) # acts) r = Some (r', out) \<longrightarrow>
               (acts = [] \<or> acts = [W_exit]) \<and> count_values out = 0"
    using run_after_read_error [OF assms(1)] by blast
  show ?thesis
    using run after pq_error_then_status [OF ok, of q "''Read error: '' @ e" "''Disconnected''"]
    by simp
qed

lemma exec_append:
  "exec (as @ bs) s = (case exec as s of None \<Rightarrow> None | Some s' \<Rightarrow> exec bs s')"
  by (induction as arbitrary: s) (auto split: option.splits)

text \<open>
  Claim C5. After a read error the status is to show an error message. In the first run
  three bytes are read, the fourth read raises \<open>SerialException\<close>, the worker leaves and
  the queue is then polled: the poll consumes the error message and the worker's last
  status message in one call, so the status it leaves is \<open>Disconnected\<close> and the error
  text is lost. In the second run the open fails instead: that path returns right after
  its error message, and the poll leaves the error text as the status.
\<close>
theorem error_status_overwritten:
  "map_option status_var
     (exec [Connect, Worker 0 (W_open Opened),
            Worker 0 W_test, Worker 0 (W_read (Returned [char_of (5::nat)])),
            Worker 0 W_test, Worker 0 (W_read (Returned [char_of (25::nat)])),
            Worker 0 W_test, Worker 0 (W_read (Returned [char_of (65::nat)])),
            Worker 0 W_test, Worker 0 (W_read (Read_SerialException ''device lost'')),
            Worker 0 W_exit, Poll] (GridApp_init []))
   = Some ''Disconnected''
   \<and> map_option status_var
     (exec [Connect, Worker 0 (W_open (Open_SerialException ''no port'')), Poll]
        (GridApp_init []))
   = Some ''Error: Open failed: no port''"
proof -
  let ?q = "[(''__STATUS__'', ''Connected: COM8 @ 115200 (raw 8-bit)''),
            (''value'', ''5''), (''value'', ''25''), (''value'', ''65'')]"
  let ?pre = "(GridApp_init [])\<lparr>
        status_var := ''Connecting to COM8 @ 115200 ...'',
        readers := [\<lparr>port = ''COM8'', baud = 115200, text_mode = False, stop_flag = False,
                     ser = Ser_closed, pc = Terminated\<rparr>],
        reader := Some 0\<rparr>"
  have pre: "exec [Connect, Worker 0 (W_open Opened),
            Worker 0 W_test, Worker 0 (W_read (Returned [char_of (5::nat)])),
            Worker 0 W_test, Worker 0 (W_read (Returned [char_of (25::nat)])),
            Worker 0 W_test, Worker 0 (W_read (Returned [char_of (65::nat)])),
            Worker 0 W_test, Worker 0 (W_read (Read_SerialException ''device lost'')),
            Worker 0 W_exit] (GridApp_init [])
      = Some (?pre\<lparr>queue := ?q @ [(''__ERROR__'', ''Read error: device lost''),
                                     (''__STATUS__'', ''Disconnected'')]\<rparr>)"
    by (simp add: connect_init run_defs init_fields py_str_examples)
  have "app_ok ?pre"
    using app_ok_init [of "[]"] by (simp add: app_ok_def)
  from pq_error_then_status [OF this, of ?q "''Read error: device lost''" "''Disconnected''"]
  obtain s2 where "process_queue (?pre\<lparr>queue := ?q @ [(''__ERROR__'', ''Read error: device lost''),
                                     (''__STATUS__'', ''Disconnected'')]\<rparr>) = Inr s2"
    "status_var s2 = ''Disconnected''"
    by blast
  then have first: "map_option status_var
     (exec [Connect, Worker 0 (W_open Opened),
            Worker 0 W_test, Worker 0 (W_read (Returned [char_of (5::nat)])),
            Worker 0 W_test, Worker 0 (W_read (Returned [char_of (25::nat)])),
            Worker 0 W_test, Worker 0 (W_read (Returned [char_of (65::nat)])),
            Worker 0 W_test, Worker 0 (W_read (Read_SerialException ''device lost'')),
            Worker 0 W_exit, Poll] (GridApp_init []))
   = Some ''Disconnected''"
    using pre exec_append [of "[Connect, Worker 0 (W_open Opened),
            Worker 0 W_test, Worker 0 (W_read (Returned [char_of (5::nat)])),
            Worker 0 W_test, Worker 0 (W_read (Returned [char_of (25::nat)])),
            Worker 0 W_test, Worker 0 (W_read (Returned [char_of (65::nat)])),
            Worker 0 W_test, Worker 0 (W_read (Read_SerialException ''device lost'')),
            Worker 0 W_exit]" "[Poll]" "GridApp_init []"]
    by simp
  have second: "map_option status_var
     (exec [Connect, Worker 0 (W_open (Open_SerialException ''no port'')), Poll]
        (GridApp_init []))
   = Some ''Error: Open failed: no port''"
    by (simp add: connect_init run_defs process_queue_def init_fields)
  show ?thesis
    using first second by (rule conjI)
qed
subsection \<open>Workers across reconnects\<close>

text \<open>
  Claim C9, as stated, has no two worker threads alive at once. \<open>stop\<close> does not wait for
  the thread: while the first worker is inside a read, a second press of Connect sets its
  stop flag and starts the second worker, and both are alive.
\<close>

theorem two_workers_alive:
  "map_option (map alive) (map_option readers
     (exec [Connect, Worker 0 (W_open Opened), Worker 0 W_test, Connect] (GridApp_init [])))
   = Some [True, True]"
  by (simp add: connect_init run_defs connect_def disconnect_def init_fields strip_examples
      int_examples py_str_examples start_def SerialReader_init_def TEXT_MODE_def alive_def Let_def)

lemma pq_loop_keeps:
  "process_queue_loop q s = Inr s' \<Longrightarrow> reader s' = reader s \<and> readers s' = readers s"
proof (induction q arbitrary: s)
  case Nil
  then show ?case by simp
next
  case (Cons m q)
  obtain kind payload where m: "m = (kind, payload)" by (cases m)
  show ?case
  proof (cases "kind = ''__ERROR__''")
    case True
    then have "process_queue_loop q (s\<lparr>queue := q, status_var := ''Error: '' @ payload\<rparr>) = Inr s'"
      using Cons.prems m by simp
    from Cons.IH [OF this] show ?thesis by simp
  next
    case notE: False
    show ?thesis
    proof (cases "kind = ''__STATUS__''")
      case True
      then have "process_queue_loop q (s\<lparr>queue := q, status_var := payload\<rparr>) = Inr s'"
        using Cons.prems m by simp
      from Cons.IH [OF this] show ?thesis by simp
    next
      case notS: False
      show ?thesis
      proof (cases "kind = ''value''")
        case True
        then obtain g where "set_cell (index s) payload (labels s) = Inr g"
          "process_queue_loop q (s\<lparr>queue := q, last_value := payload, labels := g,
              index := (index s + 1) mod TOTAL_CELLS\<rparr>) = Inr s'"
          using Cons.prems m by (simp split: sum.splits)
        from Cons.IH [OF this(2)] show ?thesis by simp
      next
        case False
        then have "process_queue_loop q (s\<lparr>queue := q\<rparr>) = Inr s'"
          using Cons.prems m notE notS by simp
        from Cons.IH [OF this] show ?thesis by simp
      qed
    qed
  qed
qed

lemma all_stopped_disconnect:
  assumes "readers_inv s" and "i < length (readers s)"
  shows "stop_flag (readers (disconnect s) ! i)"
proof (cases "reader s")
  case None
  then show ?thesis
    using assms by (auto simp: readers_inv_def disconnect_def)
next
  case (Some a)
  then show ?thesis
    using assms by (cases "i = a") (auto simp: readers_inv_def disconnect_def stop_def)
qed

lemma readers_inv_all_stopped:
  assumes "reader s = None" and "\<forall>i < length (readers s). stop_flag (readers s ! i)"
  shows "readers_inv (s\<lparr>status_var := v\<rparr>)"
    and "readers_inv (s\<lparr>status_var := v, readers := readers s @ [start (SerialReader_init p b tm)],
                         reader := Some (length (readers s))\<rparr>)"
  using assms by (auto simp: readers_inv_def nth_append)

lemma readers_inv_disconnect:
  assumes "readers_inv s"
  shows "readers_inv (disconnect s)"
proof -
  have "\<forall>i < length (readers (disconnect s)). stop_flag (readers (disconnect s) ! i)"
    using all_stopped_disconnect [OF assms] by (simp add: length_readers_disconnect)
  then show ?thesis
    unfolding readers_inv_def by (simp add: reader_disconnect)
qed

lemma readers_inv_connect:
  assumes "readers_inv s"
  shows "readers_inv (connect s)"
proof -
  have r: "reader (disconnect s) = None"
    by (rule reader_disconnect)
  have a: "\<forall>i < length (readers (disconnect s)). stop_flag (readers (disconnect s) ! i)"
    using all_stopped_disconnect [OF assms] by (simp add: length_readers_disconnect)
  note inv = readers_inv_all_stopped [OF r a]
  from connect_cases [of s] show ?thesis
  proof (elim disjE exE)
    assume "connect s = (disconnect s)\<lparr>status_var := ''Invalid baud rate''\<rparr>"
    then show ?thesis using inv(1) by simp
  next
    assume "connect s = (disconnect s)\<lparr>status_var := ''Select/enter a port''\<rparr>"
    then show ?thesis using inv(1) by simp
  next
    fix v p b
    assume "connect s =
          (disconnect s)\<lparr>status_var := v,
             readers := readers (disconnect s) @ [start (SerialReader_init p b TEXT_MODE)],
             reader := Some (length (readers (disconnect s)))\<rparr>"
    then show ?thesis using inv(2) by simp
  qed
qed

lemma readers_inv_fields:
  assumes "readers_inv s" and "reader s' = reader s" and "readers s' = readers s"
  shows "readers_inv s'"
proof -
  have "readers_inv s' = readers_inv s"
    unfolding readers_inv_def assms(2) assms(3) by (rule refl)
  then show ?thesis
    using assms(1) by (rule iffD2)
qed

lemma readers_inv_worker:
  assumes "readers_inv s" and "i < length (readers s)"
    and "stop_flag r' = stop_flag (readers s ! i)"
  shows "readers_inv (s\<lparr>readers := (readers s)[i := r'], queue := q\<rparr>)"
proof -
  let ?s' = "s\<lparr>readers := (readers s)[i := r'], queue := q\<rparr>"
  have same: "stop_flag ((readers s)[i := r'] ! j) = stop_flag (readers s ! j)"
    if "j < length (readers s)" for j
    using that assms(2,3) by (cases "j = i") simp_all
  have a: "\<forall>j < length (readers s). \<not> stop_flag (readers s ! j) \<longrightarrow> reader s = Some j"
    and b: "\<forall>a. reader s = Some a \<longrightarrow> a < length (readers s)"
    using assms(1) unfolding readers_inv_def by blast+
  show ?thesis
    unfolding readers_inv_def
  proof (intro conjI allI impI)
    fix j
    assume j: "j < length (readers ?s')" and ns: "\<not> stop_flag (readers ?s' ! j)"
    have jl: "j < length (readers s)"
      using j by simp
    have "\<not> stop_flag ((readers s)[i := r'] ! j)"
      using ns by simp
    then have "\<not> stop_flag (readers s ! j)"
      using same [OF jl] by blast
    then have "reader s = Some j"
      using a jl by blast
    then show "reader ?s' = Some j"
      by simp
  next
    fix a'
    assume "reader ?s' = Some a'"
    then have "reader s = Some a'"
      by simp
    then have "a' < length (readers s)"
      using b by blast
    then show "a' < length (readers ?s')"
      by simp
  qed
qed

lemma readers_inv_step:
  assumes "readers_inv s" and "step a s = Some s'"
  shows "readers_inv s'"
proof (cases a)
  case Connect
  then have "s' = connect s" using assms(2) by simp
  then show ?thesis using readers_inv_connect [OF assms(1)] by simp
next
  case Disconnect
  then have "s' = disconnect s" using assms(2) by simp
  then show ?thesis using readers_inv_disconnect [OF assms(1)] by simp
next
  case Poll
  then have "process_queue_loop (queue s) s = Inr s'"
    using assms(2) by (simp add: process_queue_def split: sum.splits)
  from pq_loop_keeps [OF this] show ?thesis
    using readers_inv_fields [OF assms(1)] by blast
next
  case (Refresh_ports ports)
  then have "s' = refresh_ports ports s" using assms(2) by simp
  then have "reader s' = reader s" "readers s' = readers s"
    by (simp_all add: refresh_ports_def Let_def)
  then show ?thesis by (rule readers_inv_fields [OF assms(1)])
next
  case (Edit_port p)
  then have "s' = s\<lparr>port_var := p\<rparr>" using assms(2) by simp
  then have "reader s' = reader s" "readers s' = readers s"
    by simp_all
  then show ?thesis by (rule readers_inv_fields [OF assms(1)])
next
  case (Edit_baud b)
  then have "s' = s\<lparr>baud_var := b\<rparr>" using assms(2) by simp
  then have "reader s' = reader s" "readers s' = readers s"
    by simp_all
  then show ?thesis by (rule readers_inv_fields [OF assms(1)])
next
  case (Worker i w)
  have i: "i < length (readers s)"
    using assms(2) Worker by (simp split: if_splits)
  obtain r' out where w: "worker_step w (readers s ! i) = Some (r', out)"
    using assms(2) Worker i by (cases "worker_step w (readers s ! i)") auto
  have s': "s' = s\<lparr>readers := (readers s)[i := r'], queue := queue s @ out\<rparr>"
    using assms(2) Worker i w by simp
  have "stop_flag r' = stop_flag (readers s ! i)"
    by (rule worker_step_stop_flag [OF w])
  then show ?thesis
    unfolding s' by (rule readers_inv_worker [OF assms(1) i])
qed

lemma readers_inv_exec:
  "readers_inv s \<Longrightarrow> exec acts s = Some s' \<Longrightarrow> readers_inv s'"
proof (induction acts arbitrary: s)
  case Nil
  then show ?case by simp
next
  case (Cons a acts)
  obtain s1 where s1: "step a s = Some s1"
    using Cons.prems(2) by (cases "step a s") simp_all
  then have run: "exec acts s1 = Some s'"
    using Cons.prems(2) by simp
  have "readers_inv s1"
    by (rule readers_inv_step [OF Cons.prems(1) s1])
  then show ?case
    using run by (rule Cons.IH)
qed

lemma readers_inv_init: "readers_inv (GridApp_init ports)"
  by (simp add: readers_inv_def GridApp_init_def refresh_ports_def Let_def)

lemma length_readers_connect: "length (readers (connect s)) \<le> length (readers s) + 1"
  using connect_cases [of s] by (auto simp: length_readers_disconnect)

lemma connect_stops_existing:
  assumes "readers_inv s" and "i < length (readers s)"
  shows "stop_flag (readers (connect s) ! i)"
proof -
  have i: "i < length (readers (disconnect s))"
    using assms(2) by (simp add: length_readers_disconnect)
  have st: "stop_flag (readers (disconnect s) ! i)"
    by (rule all_stopped_disconnect [OF assms])
  from connect_cases [of s] show ?thesis
  proof (elim disjE exE)
    assume "connect s = (disconnect s)\<lparr>status_var := ''Invalid baud rate''\<rparr>"
    then show ?thesis using st by simp
  next
    assume "connect s = (disconnect s)\<lparr>status_var := ''Select/enter a port''\<rparr>"
    then show ?thesis using st by simp
  next
    fix v p b
    assume "connect s =
          (disconnect s)\<lparr>status_var := v,
             readers := readers (disconnect s) @ [start (SerialReader_init p b TEXT_MODE)],
             reader := Some (length (readers (disconnect s)))\<rparr>"
    then show ?thesis using st i by (simp add: nth_append)
  qed
qed

text \<open>
  Claim C9, amended. In every state the program reaches, every worker other than the one
  \<open>self.reader\<close> refers to has been told to stop (its stop flag is set), so at most one
  worker has not. Connect tells every existing worker to stop and leaves each where it is
  in \<open>run\<close>: it does not wait for a thread to return, so a worker that was alive stays
  alive. The worker that \<open>self.reader\<close> referred to has its port closed if it was open,
  and the reference to it is dropped. If Connect then starts a worker, it is one new
  worker, about to open its port, with no stop flag and no port yet, and \<open>self.reader\<close>
  refers to it.
\<close>
theorem one_unstopped_worker:
  assumes "exec acts (GridApp_init ports) = Some s"
  shows "(\<forall>i < length (readers s). \<not> stop_flag (readers s ! i) \<longrightarrow> reader s = Some i)
       \<and> (\<forall>i < length (readers s).
             stop_flag (readers (connect s) ! i)
             \<and> pc (readers (connect s) ! i) = pc (readers s ! i))
       \<and> (\<forall>a. reader s = Some a \<longrightarrow>
             a < length (readers s)
             \<and> ser (readers (connect s) ! a) \<noteq> Ser_open
             \<and> (ser (readers s ! a) = Ser_open \<longrightarrow> ser (readers (connect s) ! a) = Ser_closed)
             \<and> reader (connect s) \<noteq> Some a)
       \<and> length (readers (connect s)) \<le> length (readers s) + 1
       \<and> (\<forall>n. reader (connect s) = Some n \<longrightarrow>
             n = length (readers s) \<and> n < length (readers (connect s))
             \<and> pc (readers (connect s) ! n) = At_open
             \<and> \<not> stop_flag (readers (connect s) ! n)
             \<and> ser (readers (connect s) ! n) = Ser_None)"
proof -
  have inv: "readers_inv s"
    by (rule readers_inv_exec [OF readers_inv_init assms])
  then have one: "\<forall>i < length (readers s). \<not> stop_flag (readers s ! i) \<longrightarrow> reader s = Some i"
    and ref: "\<forall>a. reader s = Some a \<longrightarrow> a < length (readers s)"
    unfolding readers_inv_def by blast+
  have all: "\<forall>i < length (readers s).
             stop_flag (readers (connect s) ! i)
             \<and> pc (readers (connect s) ! i) = pc (readers s ! i)"
  proof (intro allI impI)
    fix i
    assume i: "i < length (readers s)"
    have "pc (readers (connect s) ! i) = pc (readers s ! i)"
      using connect_keeps_old [OF i] pc_disconnect_nth [OF i] by simp
    then show "stop_flag (readers (connect s) ! i)
             \<and> pc (readers (connect s) ! i) = pc (readers s ! i)"
      using connect_stops_existing [OF inv i] by simp
  qed
  have old: "\<forall>a. reader s = Some a \<longrightarrow>
             a < length (readers s)
             \<and> ser (readers (connect s) ! a) \<noteq> Ser_open
             \<and> (ser (readers s ! a) = Ser_open \<longrightarrow> ser (readers (connect s) ! a) = Ser_closed)
             \<and> reader (connect s) \<noteq> Some a"
  proof (intro allI impI)
    fix a
    assume r: "reader s = Some a"
    have l: "a < length (readers s)"
      using ref r by blast
    have eq: "readers (connect s) ! a = stop (readers s ! a)"
      by (rule connect_stops_reader [OF r l])
    have "reader (connect s) \<noteq> Some a"
    proof
      assume "reader (connect s) = Some a"
      from connect_new_reader [OF this] have "a = length (readers s)"
        by blast
      then show False
        using l by simp
    qed
    then show "a < length (readers s)
             \<and> ser (readers (connect s) ! a) \<noteq> Ser_open
             \<and> (ser (readers s ! a) = Ser_open \<longrightarrow> ser (readers (connect s) ! a) = Ser_closed)
             \<and> reader (connect s) \<noteq> Some a"
      using l eq ser_stop [of "readers s ! a"] ser_stop_open [of "readers s ! a"] by simp
  qed
  have new: "\<forall>n. reader (connect s) = Some n \<longrightarrow>
             n = length (readers s) \<and> n < length (readers (connect s))
             \<and> pc (readers (connect s) ! n) = At_open
             \<and> \<not> stop_flag (readers (connect s) ! n)
             \<and> ser (readers (connect s) ! n) = Ser_None"
    using connect_new_reader [of s] by blast
  show ?thesis
    using one all old new length_readers_connect [of s] by blast
qed
theorem one_unstopped_worker_witness:
  "exec [Connect, Worker 0 (W_open Opened), Worker 0 W_test] (GridApp_init [])
     = Some ((GridApp_init [])\<lparr>
         queue := [(''__STATUS__'', ''Connected: COM8 @ 115200 (raw 8-bit)'')],
         status_var := ''Connecting to COM8 @ 115200 ...'',
         readers := [\<lparr>port = ''COM8'', baud = 115200, text_mode = False, stop_flag = False,
                      ser = Ser_open, pc = At_read\<rparr>],
         reader := Some 0\<rparr>)
   \<and> \<not> stop_flag (readers ((GridApp_init [])\<lparr>
         queue := [(''__STATUS__'', ''Connected: COM8 @ 115200 (raw 8-bit)'')],
         status_var := ''Connecting to COM8 @ 115200 ...'',
         readers := [\<lparr>port = ''COM8'', baud = 115200, text_mode = False, stop_flag = False,
                      ser = Ser_open, pc = At_read\<rparr>],
         reader := Some 0\<rparr>) ! 0)
   \<and> reader ((GridApp_init [])\<lparr>
         queue := [(''__STATUS__'', ''Connected: COM8 @ 115200 (raw 8-bit)'')],
         status_var := ''Connecting to COM8 @ 115200 ...'',
         readers := [\<lparr>port = ''COM8'', baud = 115200, text_mode = False, stop_flag = False,
                      ser = Ser_open, pc = At_read\<rparr>],
         reader := Some 0\<rparr>) = Some 0
   \<and> ser (readers ((GridApp_init [])\<lparr>
         queue := [(''__STATUS__'', ''Connected: COM8 @ 115200 (raw 8-bit)'')],
         status_var := ''Connecting to COM8 @ 115200 ...'',
         readers := [\<lparr>port = ''COM8'', baud = 115200, text_mode = False, stop_flag = False,
                      ser = Ser_open, pc = At_read\<rparr>],
         reader := Some 0\<rparr>) ! 0) = Ser_open
   \<and> reader (connect ((GridApp_init [])\<lparr>
         queue := [(''__STATUS__'', ''Connected: COM8 @ 115200 (raw 8-bit)'')],
         status_var := ''Connecting to COM8 @ 115200 ...'',
         readers := [\<lparr>port = ''COM8'', baud = 115200, text_mode = False, stop_flag = False,
                      ser = Ser_open, pc = At_read\<rparr>],
         reader := Some 0\<rparr>)) = Some 1
   \<and> stop_flag (readers (connect ((GridApp_init [])\<lparr>
         queue := [(''__STATUS__'', ''Connected: COM8 @ 115200 (raw 8-bit)'')],
         status_var := ''Connecting to COM8 @ 115200 ...'',
         readers := [\<lparr>port = ''COM8'', baud = 115200, text_mode = False, stop_flag = False,
                      ser = Ser_open, pc = At_read\<rparr>],
         reader := Some 0\<rparr>)) ! 0)
   \<and> ser (readers (connect ((GridApp_init [])\<lparr>
         queue := [(''__STATUS__'', ''Connected: COM8 @ 115200 (raw 8-bit)'')],
         status_var := ''Connecting to COM8 @ 115200 ...'',
         readers := [\<lparr>port = ''COM8'', baud = 115200, text_mode = False, stop_flag = False,
                      ser = Ser_open, pc = At_read\<rparr>],
         reader := Some 0\<rparr>)) ! 0) = Ser_closed
   \<and> pc (readers (connect ((GridApp_init [])\<lparr>
         queue := [(''__STATUS__'', ''Connected: COM8 @ 115200 (raw 8-bit)'')],
         status_var := ''Connecting to COM8 @ 115200 ...'',
         readers := [\<lparr>port = ''COM8'', baud = 115200, text_mode = False, stop_flag = False,
                      ser = Ser_open, pc = At_read\<rparr>],
         reader := Some 0\<rparr>)) ! 0) = At_read
   \<and> \<not> stop_flag (readers (connect ((GridApp_init [])\<lparr>
         queue := [(''__STATUS__'', ''Connected: COM8 @ 115200 (raw 8-bit)'')],
         status_var := ''Connecting to COM8 @ 115200 ...'',
         readers := [\<lparr>port = ''COM8'', baud = 115200, text_mode = False, stop_flag = False,
                      ser = Ser_open, pc = At_read\<rparr>],
         reader := Some 0\<rparr>)) ! 1)
   \<and> ser (readers (connect ((GridApp_init [])\<lparr>
         queue := [(''__STATUS__'', ''Connected: COM8 @ 115200 (raw 8-bit)'')],
         status_var := ''Connecting to COM8 @ 115200 ...'',
         readers := [\<lparr>port = ''COM8'', baud = 115200, text_mode = False, stop_flag = False,
                      ser = Ser_open, pc = At_read\<rparr>],
         reader := Some 0\<rparr>)) ! 1) = Ser_None
   \<and> pc (readers (connect ((GridApp_init [])\<lparr>
         queue := [(''__STATUS__'', ''Connected: COM8 @ 115200 (raw 8-bit)'')],
         status_var := ''Connecting to COM8 @ 115200 ...'',
         readers := [\<lparr>port = ''COM8'', baud = 115200, text_mode = False, stop_flag = False,
                      ser = Ser_open, pc = At_read\<rparr>],
         reader := Some 0\<rparr>)) ! 1) = At_open"
proof -
  let ?S = "(GridApp_init [])\<lparr>
         queue := [(''__STATUS__'', ''Connected: COM8 @ 115200 (raw 8-bit)'')],
         status_var := ''Connecting to COM8 @ 115200 ...'',
         readers := [\<lparr>port = ''COM8'', baud = 115200, text_mode = False, stop_flag = False,
                      ser = Ser_open, pc = At_read\<rparr>],
         reader := Some 0\<rparr>"
  let ?C = "readers (connect ?S)"
  have e: "exec [Connect, Worker 0 (W_open Opened), Worker 0 W_test] (GridApp_init []) = Some ?S"
    by (simp add: connect_init run_defs init_fields py_str_examples)
  have l: "0 < length (readers ?S)" and ns: "\<not> stop_flag (readers ?S ! 0)"
    and o: "ser (readers ?S ! 0) = Ser_open"
    and p: "pc (readers ?S ! 0) = At_read"
    by simp_all
  have new: "reader (connect ?S) = Some 1"
    by (simp add: connect_def Let_def disconnect_def init_fields strip_examples int_examples)
  note t = one_unstopped_worker [OF e]
  have r: "reader ?S = Some 0"
    using t [THEN conjunct1, rule_format, OF l ns] .
  have "stop_flag (?C ! 0) \<and> pc (?C ! 0) = pc (readers ?S ! 0)"
    using t [THEN conjunct2, THEN conjunct1, rule_format, OF l] .
  then have f0: "stop_flag (?C ! 0)" and p0: "pc (?C ! 0) = At_read"
    by (simp_all only: p)
  have s0: "ser (?C ! 0) = Ser_closed"
    using t [THEN conjunct2, THEN conjunct2, THEN conjunct1, rule_format, OF r] o by blast
  have n1: "pc (?C ! 1) = At_open \<and> \<not> stop_flag (?C ! 1) \<and> ser (?C ! 1) = Ser_None"
    using t [THEN conjunct2, THEN conjunct2, THEN conjunct2, THEN conjunct2, rule_format, OF new]
    by blast
  show ?thesis
    using e ns r o new f0 s0 p0 n1 by blast
qed
end
